theory Spec2Isabelle
  imports Main "HOL-Library.AList"
begin

section \<open>Python values, exceptions and results\<close>

text \<open>
  The client of \<^verbatim>\<open>electronbonder/client.py\<close> handles parsed JSON and keyword arguments.
  Both are Python objects built from \<^verbatim>\<open>None\<close>, booleans, integers, strings, lists
  and string-keyed dictionaries; a dictionary is an association list in insertion order,
  read with \<open>map_of\<close> and written with \<open>AList.update\<close>. Floating-point numbers are not
  part of the value type.
\<close>

datatype pyval =
    PNone
  | PBool bool
  | PInt int
  | PStr string
  | PList "pyval list"
  | PDict "(string \<times> pyval) list"

text \<open>
  Exceptions are values. The two classes of the module come first; \<open>KeyError\<close> carries the
  missing key; \<open>TypeError\<close> and \<open>AttributeError\<close> carry the interpreter's message
  (CPython 3.11 wording); \<open>OtherException\<close> is any other subclass of \<^verbatim>\<open>Exception\<close>
  raised by library code (the transport of \<^verbatim>\<open>requests\<close>, the JSON decoder, the OAuth
  library), given by its class name and its \<^verbatim>\<open>str()\<close>. Exceptions outside
  \<^verbatim>\<open>Exception\<close> (\<^verbatim>\<open>KeyboardInterrupt\<close>, \<^verbatim>\<open>SystemExit\<close>,
  \<^verbatim>\<open>GeneratorExit\<close>) are not modelled, so the bare \<^verbatim>\<open>except:\<close> of
  \<^verbatim>\<open>client/web_client.py\<close> and the \<^verbatim>\<open>except Exception:\<close> of
  \<^verbatim>\<open>client.py\<close> catch the same exceptions here.
\<close>

datatype pyexc =
    ElectronBondAuthError string
  | ElectronBondReturnError string
  | KeyError string
  | TypeError string
  | AttributeError string
  | OtherException string string

text \<open>
  A call either returns, raises, or never comes back because the underlying session has
  no reply left for it (\<open>NoReply\<close>, see \<open>session_request\<close> below).
\<close>

datatype 'a res = Return 'a | Raise pyexc | NoReply

subsection \<open>Library functions taken as parameters\<close>

text \<open>
  \<open>urlparse_path u\<close> is \<^verbatim>\<open>urllib.parse.urlparse(u).path\<close> (or the exception
  \<^verbatim>\<open>urlparse\<close> raises); \<open>repr\<close> is Python's \<^verbatim>\<open>repr\<close> on strings, lists and
  dictionaries.
\<close>

record pylib =
  urlparse_path :: "string \<Rightarrow> pyexc + string"
  repr :: "pyval \<Rightarrow> string"

text \<open>
  The OAuth libraries: \<^verbatim>\<open>oauthlib.oauth2.BackendApplicationClient(client_id=...)\<close>,
  \<^verbatim>\<open>requests_oauthlib.OAuth2Session(client=...)\<close> and
  \<^verbatim>\<open>OAuth2Session.fetch_token(token_url=..., client_id=..., client_secret=...)\<close>,
  each returning its object or raising.
\<close>

record ('c, 'o) oauthlib =
  BackendApplicationClient :: "string \<Rightarrow> pyexc + 'c"
  OAuth2Session :: "'c \<Rightarrow> pyexc + 'o"
  fetch_token :: "'o \<Rightarrow> string \<Rightarrow> string \<Rightarrow> string \<Rightarrow> pyexc + (string \<times> pyval) list"

subsection \<open>Built-in operations\<close>

fun str_nat :: "nat \<Rightarrow> string" where
  "str_nat n =
     (if n < 10 then [char_of (48 + n)]
      else str_nat (n div 10) @ [char_of (48 + n mod 10)])"

declare str_nat.simps [simp del]

definition str_int :: "int \<Rightarrow> string" where
  "str_int i = (if i < 0 then CHR ''-'' # str_nat (nat (- i)) else str_nat (nat i))"

text \<open>\<^verbatim>\<open>"{}".format(v)\<close> and \<^verbatim>\<open>f"{v}"\<close>: \<^verbatim>\<open>str(v)\<close>.\<close>

definition py_str :: "pylib \<Rightarrow> pyval \<Rightarrow> string" where
  "py_str L v =
     (case v of
        PStr s \<Rightarrow> s
      | PInt n \<Rightarrow> str_int n
      | PNone \<Rightarrow> ''None''
      | PBool b \<Rightarrow> (if b then ''True'' else ''False'')
      | _ \<Rightarrow> repr L v)"

text \<open>\<^verbatim>\<open>str(e)\<close> of an exception: its message; for a \<^verbatim>\<open>KeyError\<close> the repr of the key.\<close>

fun str_exc :: "pylib \<Rightarrow> pyexc \<Rightarrow> string" where
  "str_exc L (ElectronBondAuthError m) = m"
| "str_exc L (ElectronBondReturnError m) = m"
| "str_exc L (KeyError k) = repr L (PStr k)"
| "str_exc L (TypeError m) = m"
| "str_exc L (AttributeError m) = m"
| "str_exc L (OtherException c m) = m"

fun type_name :: "pyval \<Rightarrow> string" where
  "type_name PNone = ''NoneType''"
| "type_name (PBool _) = ''bool''"
| "type_name (PInt _) = ''int''"
| "type_name (PStr _) = ''str''"
| "type_name (PList _) = ''list''"
| "type_name (PDict _) = ''dict''"

text \<open>A word between apostrophes, as the interpreter's messages quote type names.\<close>

definition quoted :: "string \<Rightarrow> string" where
  "quoted s = [CHR 0x27] @ s @ [CHR 0x27]"

text \<open>\<^verbatim>\<open>v[k]\<close> for a string key \<open>k\<close>.\<close>

fun getitem :: "pyval \<Rightarrow> string \<Rightarrow> pyexc + pyval" where
  "getitem (PDict d) k = (case map_of d k of None \<Rightarrow> Inl (KeyError k) | Some x \<Rightarrow> Inr x)"
| "getitem (PStr _) k = Inl (TypeError (''string indices must be integers, not '' @ quoted ''str''))"
| "getitem (PList _) k = Inl (TypeError ''list indices must be integers or slices, not str'')"
| "getitem v k = Inl (TypeError (quoted (type_name v) @ '' object is not subscriptable''))"

text \<open>\<^verbatim>\<open>len(v)\<close>.\<close>

fun py_len :: "pyval \<Rightarrow> pyexc + nat" where
  "py_len (PStr s) = Inr (length s)"
| "py_len (PList xs) = Inr (length xs)"
| "py_len (PDict d) = Inr (length d)"
| "py_len v = Inl (TypeError (''object of type '' @ quoted (type_name v) @ '' has no len()''))"

text \<open>\<^verbatim>\<open>for obj in v\<close>: the objects the loop visits, in order.\<close>

fun py_iter :: "pyval \<Rightarrow> pyexc + pyval list" where
  "py_iter (PList xs) = Inr xs"
| "py_iter (PStr s) = Inr (map (\<lambda>c. PStr [c]) s)"
| "py_iter (PDict d) = Inr (map (\<lambda>kv. PStr (fst kv)) d)"
| "py_iter v = Inl (TypeError (quoted (type_name v) @ '' object is not iterable''))"

text \<open>\<^verbatim>\<open>v.get(k)\<close>.\<close>

fun dict_get :: "pyval \<Rightarrow> string \<Rightarrow> pyexc + pyval" where
  "dict_get (PDict d) k = Inr (case map_of d k of None \<Rightarrow> PNone | Some x \<Rightarrow> x)"
| "dict_get v k =
     Inl (AttributeError (quoted (type_name v) @ '' object has no attribute '' @ quoted ''get''))"

text \<open>Truth value of an object, as \<^verbatim>\<open>not v\<close> tests it.\<close>

fun truthy :: "pyval \<Rightarrow> bool" where
  "truthy PNone = False"
| "truthy (PBool b) = b"
| "truthy (PInt n) = (n \<noteq> 0)"
| "truthy (PStr s) = (s \<noteq> [])"
| "truthy (PList xs) = (xs \<noteq> [])"
| "truthy (PDict d) = (d \<noteq> [])"

text \<open>\<^verbatim>\<open>v += 1\<close>: the new value, or the \<^verbatim>\<open>TypeError\<close>.\<close>

fun add_one :: "pyval \<Rightarrow> pyexc + pyval" where
  "add_one (PInt n) = Inr (PInt (n + 1))"
| "add_one (PBool b) = Inr (PInt ((if b then 1 else 0) + 1))"
| "add_one (PStr _) = Inl (TypeError ''can only concatenate str (not \"int\") to str'')"
| "add_one (PList _) = Inl (TypeError (quoted ''int'' @ '' object is not iterable''))"
| "add_one v =
     Inl (TypeError (''unsupported operand type(s) for +=: '' @ quoted (type_name v) @
                     '' and '' @ quoted ''int''))"

text \<open>\<^verbatim>\<open>sep.join(xs)\<close>, \<^verbatim>\<open>s.rstrip(chars)\<close> and \<^verbatim>\<open>s.lstrip(chars)\<close>.\<close>

fun join :: "string \<Rightarrow> string list \<Rightarrow> string" where
  "join sep [] = []"
| "join sep [x] = x"
| "join sep (x # y # ys) = x @ sep @ join sep (y # ys)"

definition lstrip :: "string \<Rightarrow> string \<Rightarrow> string" where
  "lstrip chars s = dropWhile (\<lambda>c. c \<in> set chars) s"

definition rstrip :: "string \<Rightarrow> string \<Rightarrow> string" where
  "rstrip chars s = rev (dropWhile (\<lambda>c. c \<in> set chars) (rev s))"

text \<open>\<^verbatim>\<open>d.update(**other)\<close>: the pairs of \<open>other\<close> are written into \<open>d\<close> in order.\<close>

definition dict_update :: "(string \<times> pyval) list \<Rightarrow> (string \<times> pyval) list \<Rightarrow> (string \<times> pyval) list" where
  "dict_update d other = foldl (\<lambda>acc kv. AList.update (fst kv) (snd kv) acc) d other"

section \<open>The session and the client object\<close>

text \<open>
  A response of the underlying \<^verbatim>\<open>requests.Session\<close>: its status code and what parsing
  its body as JSON gives (\<^verbatim>\<open>resp.json()\<close>, \<^verbatim>\<open>json.loads(resp.text)\<close>): the parsed
  value, or the decoder's exception.
\<close>

record response =
  status_code :: int
  json :: "pyexc + pyval"

text \<open>
  What the underlying session receives when one of its verb methods is called: the method
  name, the URL, the other positional and the keyword arguments, and the session's default
  headers at that moment. (How \<^verbatim>\<open>requests\<close> merges default headers with per-call
  ones is its own business.)
\<close>

record call =
  c_meth :: string
  c_url :: string
  c_args :: "pyval list"
  c_kwargs :: "(string \<times> pyval) list"
  c_headers :: "(string \<times> string) list"

text \<open>
  \<^verbatim>\<open>self.session\<close>: its default headers, the replies the transport will give to the
  coming calls in order (a response, or the exception the call raises once the retries
  are exhausted), and the calls received so far, oldest first.
\<close>

record session =
  headers :: "(string \<times> string) list"
  replies :: "(pyexc + response) list"
  calls :: "call list"

record electronbond =
  config :: "(string \<times> string) list"
  session :: session

text \<open>\<^verbatim>\<open>getattr(session, meth)(url, *args, **kwargs)\<close>.\<close>

definition session_request ::
  "string \<Rightarrow> string \<Rightarrow> pyval list \<Rightarrow> (string \<times> pyval) list \<Rightarrow> session \<Rightarrow> response res \<times> session" where
  "session_request m u as kws s =
     (let s' = s\<lparr>calls := calls s @
                 [\<lparr>c_meth = m, c_url = u, c_args = as, c_kwargs = kws, c_headers = headers s\<rparr>]\<rparr>
      in case replies s of
           [] \<Rightarrow> (NoReply, s')
         | Inl e # rs \<Rightarrow> (Raise e, s'\<lparr>replies := rs\<rparr>)
         | Inr r # rs \<Rightarrow> (Return r, s'\<lparr>replies := rs\<rparr>))"

text \<open>\<^verbatim>\<open>self.config[k]\<close>.\<close>

definition config_get :: "electronbond \<Rightarrow> string \<Rightarrow> pyexc + string" where
  "config_get self k = (case map_of (config self) k of None \<Rightarrow> Inl (KeyError k) | Some v \<Rightarrow> Inr v)"

text \<open>
  \<^verbatim>\<open>ElectronBond.__init__(**config)\<close> on a session \<open>s\<close>: the one the class already
  has, or the one \<^verbatim>\<open>retry_session(retries=5)\<close> builds (its retry adapters belong to the
  transport and are not part of the state).
\<close>

definition ElectronBond :: "(string \<times> string) list \<Rightarrow> session \<Rightarrow> electronbond" where
  "ElectronBond cfg s =
     \<lparr>config = cfg,
      session = s\<lparr>headers :=
        AList.update ''User-Agent'' ''ElectronBond/0.1''
          (AList.update ''Accept'' ''application/json'' (headers s))\<rparr>\<rparr>"

section \<open>The proxied verbs\<close>

text \<open>The methods the metaclass \<^verbatim>\<open>ElectronBondProxyMethods\<close> installs.\<close>

definition proxy_verbs :: "string list" where
  "proxy_verbs = [''get'', ''post'', ''head'', ''patch'', ''put'', ''delete'', ''options'']"

text \<open>\<^verbatim>\<open>http_meth_factory(meth)\<close> applied to \<^verbatim>\<open>(self, url, *args, **kwargs)\<close>.\<close>

definition http_method ::
  "pylib \<Rightarrow> string \<Rightarrow> electronbond \<Rightarrow> string \<Rightarrow> pyval list \<Rightarrow> (string \<times> pyval) list
     \<Rightarrow> response res \<times> electronbond" where
  "http_method L m self u as kws =
     (case urlparse_path L u of
        Inl e \<Rightarrow> (Raise e, self)
      | Inr path \<Rightarrow>
          (case config_get self ''baseurl'' of
             Inl e \<Rightarrow> (Raise e, self)
           | Inr baseurl \<Rightarrow>
               (let full_url = join ''/'' [rstrip ''/'' baseurl, lstrip ''/'' path];
                    (result, s') = session_request m full_url as kws (session self)
                in (result, self\<lparr>session := s'\<rparr>))))"

section \<open>Authentication\<close>

text \<open>
  \<^verbatim>\<open>ElectronBond.authorize\<close>. The URL and the form data are evaluated before the
  call (\<^verbatim>\<open>baseurl\<close>, \<^verbatim>\<open>password\<close>, \<^verbatim>\<open>username\<close> in that order); the
  POST goes to the session itself, not through a proxied verb.
\<close>

definition authorize :: "pylib \<Rightarrow> electronbond \<Rightarrow> pyval res \<times> electronbond" where
  "authorize L self =
     (case config_get self ''baseurl'' of
        Inl e \<Rightarrow> (Raise e, self)
      | Inr baseurl \<Rightarrow>
     (case config_get self ''password'' of
        Inl e \<Rightarrow> (Raise e, self)
      | Inr password \<Rightarrow>
     (case config_get self ''username'' of
        Inl e \<Rightarrow> (Raise e, self)
      | Inr username \<Rightarrow>
     (case session_request ''post'' (join ''/'' [rstrip ''/'' baseurl, ''get-token/'']) []
             [(''data'', PDict [(''password'', PStr password), (''username'', PStr username)])]
             (session self) of
        (Raise e, s') \<Rightarrow> (Raise e, self\<lparr>session := s'\<rparr>)
      | (NoReply, s') \<Rightarrow> (NoReply, self\<lparr>session := s'\<rparr>)
      | (Return resp, s') \<Rightarrow>
     (if status_code resp \<notin> set [200, 201]
      then (Raise (ElectronBondAuthError
                    (''Failed to authorize with status: '' @ py_str L (PInt (status_code resp)))),
            self\<lparr>session := s'\<rparr>)
      else
     (case json resp of
        Inl e \<Rightarrow> (Raise e, self\<lparr>session := s'\<rparr>)
      | Inr body \<Rightarrow>
     (case getitem body ''token'' of
        Inl e \<Rightarrow> (Raise e, self\<lparr>session := s'\<rparr>)
      | Inr session_token \<Rightarrow>
          (Return session_token,
           self\<lparr>session := s'\<lparr>headers :=
             AList.update ''Authorization'' (''Bearer '' @ py_str L session_token)
               (headers s')\<rparr>\<rparr>))))))))"

text \<open>
  The \<^verbatim>\<open>try\<close> block of \<^verbatim>\<open>ElectronBond.authorize_oauth\<close>: the token, or the first
  exception raised in it.
\<close>

definition oauth_try :: "('c, 'o) oauthlib \<Rightarrow> electronbond \<Rightarrow> pyexc + (string \<times> pyval) list" where
  "oauth_try A self =
     (case config_get self ''oauth_client_id'' of
        Inl e \<Rightarrow> Inl e
      | Inr client_id \<Rightarrow>
     (case BackendApplicationClient A client_id of
        Inl e \<Rightarrow> Inl e
      | Inr client \<Rightarrow>
     (case OAuth2Session A client of
        Inl e \<Rightarrow> Inl e
      | Inr oauth \<Rightarrow>
     (case config_get self ''oauth_client_baseurl'' of
        Inl e \<Rightarrow> Inl e
      | Inr oauth_client_baseurl \<Rightarrow>
     (case config_get self ''oauth_client_id'' of
        Inl e \<Rightarrow> Inl e
      | Inr client_id' \<Rightarrow>
     (case config_get self ''oauth_client_secret'' of
        Inl e \<Rightarrow> Inl e
      | Inr client_secret \<Rightarrow>
          fetch_token A oauth (oauth_client_baseurl @ ''/oauth2/token'') client_id'
            client_secret))))))"

text \<open>
  \<^verbatim>\<open>ElectronBond.authorize_oauth\<close>. The right-hand side of the header assignment is
  evaluated before the header is written.
\<close>

definition authorize_oauth ::
  "pylib \<Rightarrow> ('c, 'o) oauthlib \<Rightarrow> electronbond \<Rightarrow> pyval res \<times> electronbond" where
  "authorize_oauth L A self =
     (case oauth_try A self of
        Inl e \<Rightarrow>
          (Raise (ElectronBondAuthError
                   (''Failed to authorize OAuth with message: '' @ str_exc L e)), self)
      | Inr token \<Rightarrow>
     (case getitem (PDict token) ''access_token'' of
        Inl e \<Rightarrow> (Raise e, self)
      | Inr access_token \<Rightarrow>
     (let self' = self\<lparr>session := (session self)\<lparr>headers :=
                    AList.update ''Authorization'' (''Bearer '' @ py_str L access_token)
                      (headers (session self))\<rparr>\<rparr>
      in case getitem (PDict token) ''access_token'' of
           Inl e \<Rightarrow> (Raise e, self')
         | Inr returned \<Rightarrow> (Return returned, self'))))"

section \<open>Pagination\<close>

text \<open>
  \<^verbatim>\<open>get_paged\<close> is a generator. It is modelled run to its end by a consumer that does
  nothing else with the client meanwhile: the result is the list of the objects yielded, in
  order, how the generator ended (\<open>Return ()\<close> when it is exhausted, \<open>Raise e\<close>, or
  \<open>NoReply\<close> when a page fetch found no reply), and the client afterwards.

  The first lines of \<^verbatim>\<open>get_paged\<close>: the query parameters and the keyword arguments
  left to forward.
\<close>

definition initial_params ::
  "(string \<times> pyval) list \<Rightarrow> pyexc + (string \<times> pyval) list \<times> (string \<times> pyval) list" where
  "initial_params kws =
     (case map_of kws ''params'' of
        None \<Rightarrow> Inr ([(''page'', PInt 1)], kws)
      | Some (PDict d) \<Rightarrow> Inr (dict_update [(''page'', PInt 1)] d, AList.delete ''params'' kws)
      | Some v \<Rightarrow>
          Inl (TypeError (''dict.update() argument after ** must be a mapping, not '' @
                          type_name v)))"

text \<open>The exception the \<^verbatim>\<open>except\<close> clause of \<^verbatim>\<open>get_paged\<close> raises.\<close>

definition return_error :: "pylib \<Rightarrow> pyval \<Rightarrow> pyexc" where
  "return_error L current_json =
     ElectronBondReturnError (''get_paged doesn't know how to handle '' @ py_str L current_json)"

text \<open>
  The \<^verbatim>\<open>try\<close> statement of \<^verbatim>\<open>get_paged\<close>: the \<^verbatim>\<open>while\<close> loop, entered with
  the current \<^verbatim>\<open>params\<close> and \<^verbatim>\<open>current_json\<close>. Every exception raised inside is
  replaced by \<open>return_error\<close> on the value \<^verbatim>\<open>current_json\<close> has at that moment. Each
  turn of the loop takes one reply from the session, which gives the termination measure.
\<close>

function get_paged_loop ::
  "pylib \<Rightarrow> string \<Rightarrow> (string \<times> pyval) list \<Rightarrow> pyval \<Rightarrow> electronbond
     \<Rightarrow> pyval list \<times> unit res \<times> electronbond" where
  "get_paged_loop L u params current_json self =
     (case getitem current_json ''results'' of
        Inl e \<Rightarrow> ([], Raise (return_error L current_json), self)
      | Inr results \<Rightarrow>
     (case py_len results of
        Inl e \<Rightarrow> ([], Raise (return_error L current_json), self)
      | Inr n \<Rightarrow>
     (if \<not> n > 0 then ([], Return (), self) else
     (case py_iter results of
        Inl e \<Rightarrow> ([], Raise (return_error L current_json), self)
      | Inr objs \<Rightarrow>
     (case dict_get current_json ''next'' of
        Inl e \<Rightarrow> (objs, Raise (return_error L current_json), self)
      | Inr nxt \<Rightarrow>
     (if \<not> truthy nxt then (objs, Return (), self) else
     (case getitem (PDict params) ''page'' of
        Inl e \<Rightarrow> (objs, Raise (return_error L current_json), self)
      | Inr page \<Rightarrow>
     (case add_one page of
        Inl e \<Rightarrow> (objs, Raise (return_error L current_json), self)
      | Inr page' \<Rightarrow>
     (let params' = AList.update ''page'' page' params in
     (case http_method L ''get'' self u [] [(''params'', PDict params')] of
        (Raise e, self') \<Rightarrow> (objs, Raise (return_error L current_json), self')
      | (NoReply, self') \<Rightarrow> (objs, NoReply, self')
      | (Return current_page, self') \<Rightarrow>
     (case json current_page of
        Inl e \<Rightarrow> (objs, Raise (return_error L current_json), self')
      | Inr current_json' \<Rightarrow>
          (case get_paged_loop L u params' current_json' self' of
             (later, ending, self'') \<Rightarrow> (objs @ later, ending, self'')))))))))))))"
  by pat_completeness auto
termination
  by (relation "measure (\<lambda>(L, u, params, current_json, self). length (replies (session self)))")
     (auto simp: http_method_def session_request_def Let_def
           split: sum.splits prod.splits list.splits)

declare get_paged_loop.simps [simp del]

text \<open>
  \<^verbatim>\<open>ElectronBond.get_paged(url, *args, **kwargs)\<close>. The positional \<^verbatim>\<open>args\<close> are
  accepted and not used. The first fetch and the parsing of its body are outside the
  \<^verbatim>\<open>try\<close> statement.
\<close>

definition get_paged ::
  "pylib \<Rightarrow> electronbond \<Rightarrow> string \<Rightarrow> pyval list \<Rightarrow> (string \<times> pyval) list
     \<Rightarrow> pyval list \<times> unit res \<times> electronbond" where
  "get_paged L self u as kws =
     (case initial_params kws of
        Inl e \<Rightarrow> ([], Raise e, self)
      | Inr (params, kws') \<Rightarrow>
     (case http_method L ''get'' self u [] ((''params'', PDict params) # kws') of
        (Raise e, self') \<Rightarrow> ([], Raise e, self')
      | (NoReply, self') \<Rightarrow> ([], NoReply, self')
      | (Return current_page, self') \<Rightarrow>
     (case json current_page of
        Inl e \<Rightarrow> ([], Raise e, self')
      | Inr current_json \<Rightarrow> get_paged_loop L u params current_json self')))"

subsection \<open>Vocabulary for statements about pages\<close>

text \<open>
  The \<open>results\<close> array of a parsed page, when the page is an object that has one.
\<close>

definition results_array :: "pyval \<Rightarrow> pyval list option" where
  "results_array j = (case getitem j ''results'' of Inr (PList xs) \<Rightarrow> Some xs | _ \<Rightarrow> None)"

text \<open>The page has a \<open>next\<close> field whose value counts as true.\<close>

definition next_truthy :: "pyval \<Rightarrow> bool" where
  "next_truthy j = (case dict_get j ''next'' of Inr v \<Rightarrow> truthy v | Inl _ \<Rightarrow> False)"

text \<open>The elements of the \<open>results\<close> array, in array order.\<close>

definition page_items :: "pyval \<Rightarrow> pyval list" where
  "page_items j = (case results_array j of Some xs \<Rightarrow> xs | None \<Rightarrow> [])"

text \<open>
  A page with a non-empty \<open>results\<close> array and a true \<open>next\<close>; and a page the
  sequence ends with: its \<open>results\<close> array is empty, or \<open>next\<close> is false or absent.
\<close>

definition more_page :: "pyval \<Rightarrow> bool" where
  "more_page j = (case results_array j of Some xs \<Rightarrow> xs \<noteq> [] \<and> next_truthy j | None \<Rightarrow> False)"

definition final_page :: "pyval \<Rightarrow> bool" where
  "final_page j = (case results_array j of Some xs \<Rightarrow> xs = [] \<or> \<not> next_truthy j | None \<Rightarrow> False)"

text \<open>\<^verbatim>\<open>params["page"] += 1\<close> succeeds on these parameters.\<close>

definition page_incrementable :: "(string \<times> pyval) list \<Rightarrow> bool" where
  "page_incrementable params =
     (case map_of params ''page'' of
        None \<Rightarrow> False
      | Some p \<Rightarrow> (case add_one p of Inl _ \<Rightarrow> False | Inr _ \<Rightarrow> True))"

text \<open>A \<open>get\<close> received by the session with no positional argument besides the URL.\<close>

definition page_fetch ::
  "string \<Rightarrow> (string \<times> string) list \<Rightarrow> (string \<times> pyval) list \<Rightarrow> call" where
  "page_fetch full_url hdrs kws =
     \<lparr>c_meth = ''get'', c_url = full_url, c_args = [], c_kwargs = kws, c_headers = hdrs\<rparr>"

text \<open>The page number a call received by the session asks for.\<close>

definition requested_page :: "call \<Rightarrow> pyval option" where
  "requested_page c =
     (case map_of (c_kwargs c) ''params'' of
        Some (PDict ps) \<Rightarrow> map_of ps ''page''
      | _ \<Rightarrow> None)"

text \<open>\<^verbatim>\<open>params\<close> after \<open>k\<close> executions of \<^verbatim>\<open>params["page"] += 1\<close>.\<close>

fun params_after :: "(string \<times> pyval) list \<Rightarrow> nat \<Rightarrow> (string \<times> pyval) list" where
  "params_after params 0 = params"
| "params_after params (Suc k) =
     (case getitem (PDict params) ''page'' of
        Inl e \<Rightarrow> params
      | Inr page \<Rightarrow>
          (case add_one page of
             Inl e \<Rightarrow> params
           | Inr page' \<Rightarrow> params_after (AList.update ''page'' page' params) k))"

section \<open>Sequences of client operations\<close>

text \<open>
  The operations of the client other than the two authenticators: a proxied verb, or a
  full run of \<^verbatim>\<open>get_paged\<close>. \<open>run_ops\<close> performs a list of them one after the other
  on the same client, whatever each returns or raises.
\<close>

datatype client_op =
    Verb string string "pyval list" "(string \<times> pyval) list"
  | GetPaged string "pyval list" "(string \<times> pyval) list"

fun run_op :: "pylib \<Rightarrow> electronbond \<Rightarrow> client_op \<Rightarrow> electronbond" where
  "run_op L self (Verb m u as kws) = snd (http_method L m self u as kws)"
| "run_op L self (GetPaged u as kws) = snd (snd (get_paged L self u as kws))"

fun run_ops :: "pylib \<Rightarrow> electronbond \<Rightarrow> client_op list \<Rightarrow> electronbond" where
  "run_ops L self [] = self"
| "run_ops L self (x # xs) = run_ops L (run_op L self x) xs"

text \<open>
  \<open>session_extends self self'\<close>: from \<open>self\<close> to \<open>self'\<close> the configuration and the
  session's default headers are the same, the calls received before are still there, and
  every call received since carries those default headers.
\<close>

definition session_extends :: "electronbond \<Rightarrow> electronbond \<Rightarrow> bool" where
  "session_extends self self' \<longleftrightarrow>
     config self' = config self \<and>
     headers (session self') = headers (session self) \<and>
     take (length (calls (session self))) (calls (session self')) = calls (session self) \<and>
     list_all (\<lambda>c. c_headers c = headers (session self))
       (drop (length (calls (session self))) (calls (session self')))"

section \<open>Properties\<close>

subsection \<open>Stripping slashes\<close>

text \<open>
  \<open>rstrip ''/''\<close> removes all the slashes at the end and nothing else, \<open>lstrip ''/''\<close> all
  those at the start and nothing else.
\<close>

lemma rstrip_slash_decompose:
  "\<exists>n. s = rstrip ''/'' s @ replicate n (CHR ''/'')"
proof -
  let ?P = "\<lambda>c. c \<in> set ''/''"
  have "rev s = takeWhile ?P (rev s) @ dropWhile ?P (rev s)" by simp
  then have "s = rev (dropWhile ?P (rev s)) @ rev (takeWhile ?P (rev s))"
    by (metis rev_append rev_rev_ident)
  moreover have "rev (takeWhile ?P (rev s)) = replicate (length (takeWhile ?P (rev s))) (CHR ''/'')"
    by (rule replicate_eqI) (auto dest: set_takeWhileD)
  ultimately show ?thesis unfolding rstrip_def by metis
qed

lemma rstrip_slash_end: "rstrip ''/'' s = [] \<or> last (rstrip ''/'' s) \<noteq> CHR ''/''"
proof (cases "dropWhile (\<lambda>c. c \<in> set ''/'') (rev s)")
  case Nil
  then show ?thesis by (simp add: rstrip_def)
next
  case (Cons a as)
  then have "\<not> a \<in> set ''/''" using hd_dropWhile [of "\<lambda>c. c \<in> set ''/''" "rev s"] by auto
  with Cons show ?thesis by (simp add: rstrip_def)
qed

lemma lstrip_slash_decompose:
  "\<exists>n. s = replicate n (CHR ''/'') @ lstrip ''/'' s"
proof -
  let ?P = "\<lambda>c. c \<in> set ''/''"
  have "s = takeWhile ?P s @ dropWhile ?P s" by simp
  moreover have "takeWhile ?P s = replicate (length (takeWhile ?P s)) (CHR ''/'')"
    by (rule replicate_eqI) (auto dest: set_takeWhileD)
  ultimately show ?thesis unfolding lstrip_def by metis
qed

lemma lstrip_slash_start: "lstrip ''/'' s = [] \<or> hd (lstrip ''/'' s) \<noteq> CHR ''/''"
  using hd_dropWhile [of "\<lambda>c. c \<in> set ''/''" s] by (auto simp: lstrip_def)

text \<open>
  C2. Whatever URL is given to a proxied verb (\<open>get\<close>, \<open>post\<close>, \<open>head\<close>, \<open>patch\<close>,
  \<open>put\<close>, \<open>delete\<close>, \<open>options\<close>), the underlying session receives exactly one more call,
  whose URL is the configured \<open>baseurl\<close> without its trailing slashes, a \<open>/\<close>, and the
  path component of the given URL without its leading slashes; scheme, host, query and
  fragment of the given URL play no part. The other arguments are passed on unchanged.
\<close>

theorem proxy_verb_url:
  assumes "m \<in> set proxy_verbs"
    and "map_of (config self) ''baseurl'' = Some baseurl"
    and "urlparse_path L u = Inr path"
  shows "calls (session (snd (http_method L m self u as kws))) =
           calls (session self) @
             [\<lparr>c_meth = m,
               c_url = rstrip ''/'' baseurl @ ''/'' @ lstrip ''/'' path,
               c_args = as, c_kwargs = kws, c_headers = headers (session self)\<rparr>]"
  using assms(2,3)
  by (simp add: http_method_def config_get_def session_request_def Let_def
           split: list.splits sum.splits)

theorem proxy_verb_url_witness:
  "calls (session (snd (http_method
       \<lparr>urlparse_path = (\<lambda>u. if u = ''https://other.example/objects/7?x=1''
                                then Inr ''/objects/7'' else Inr u),
        repr = (\<lambda>v. [])\<rparr>
       ''patch''
       \<lparr>config = [(''baseurl'', ''http://localhost:8000/'')],
        session = \<lparr>headers = [(''Accept'', ''application/json'')], replies = [], calls = []\<rparr>\<rparr>
       ''https://other.example/objects/7?x=1'' [PInt 5] [(''timeout'', PInt 3)]))) =
     [\<lparr>c_meth = ''patch'', c_url = ''http://localhost:8000/objects/7'',
       c_args = [PInt 5], c_kwargs = [(''timeout'', PInt 3)],
       c_headers = [(''Accept'', ''application/json'')]\<rparr>]"
proof -
  let ?L = "\<lparr>urlparse_path = (\<lambda>u. if u = ''https://other.example/objects/7?x=1''
                                then Inr ''/objects/7'' else Inr u),
        repr = (\<lambda>v. [])\<rparr>"
  let ?self = "\<lparr>config = [(''baseurl'', ''http://localhost:8000/'')],
        session = \<lparr>headers = [(''Accept'', ''application/json'')], replies = [], calls = []\<rparr>\<rparr>"
  have h1: "''patch'' \<in> set proxy_verbs" by (simp add: proxy_verbs_def)
  have h2: "map_of (config ?self) ''baseurl'' = Some ''http://localhost:8000/''" by simp
  have h3: "urlparse_path ?L ''https://other.example/objects/7?x=1'' = Inr ''/objects/7''" by simp
  show ?thesis
    using proxy_verb_url [OF h1 h2 h3, of "[PInt 5]" "[(''timeout'', PInt 3)]"]
    by (simp add: rstrip_def lstrip_def)
qed

subsection \<open>What the session keeps\<close>

lemma py_str_PStr: "py_str L (PStr s) = s"
  by (simp add: py_str_def)

lemma session_request_headers: "headers (snd (session_request m u as kws s)) = headers s"
  by (simp add: session_request_def Let_def split: list.splits sum.splits)

lemma http_method_headers:
  "headers (session (snd (http_method L m self u as kws))) = headers (session self)"
  by (simp add: http_method_def Let_def session_request_def split: list.splits sum.splits)

lemma http_method_last_call:
  assumes "urlparse_path L u = Inr path" and "map_of (config self) ''baseurl'' = Some b"
  shows "c_headers (last (calls (session (snd (http_method L m self u as kws))))) =
           headers (session self)"
  using assms
  by (simp add: http_method_def config_get_def Let_def session_request_def
           split: list.splits sum.splits)

subsection \<open>Password authentication\<close>

text \<open>
  C3. When the token endpoint answers with status 200 or 201 and a JSON object that has a
  \<open>token\<close> field, \<open>authorize\<close> returns that token, has sent one POST to
  \<open>baseurl\<close> (trailing slashes stripped) followed by \<open>/get-token/\<close> with the password
  and the user name as form data, and has set the session header \<open>Authorization\<close> to
  \<open>Bearer\<close> and the token (for a string token, the string itself, by \<open>py_str_PStr\<close>).
  Every proxied request made on the client afterwards reaches the session with that header
  among its default headers.
\<close>

theorem authorize_success:
  assumes "map_of (config self) ''baseurl'' = Some baseurl"
    and "map_of (config self) ''password'' = Some password"
    and "map_of (config self) ''username'' = Some username"
    and "replies (session self) = Inr resp # rest"
    and "status_code resp = 200 \<or> status_code resp = 201"
    and "json resp = Inr (PDict body)"
    and "map_of body ''token'' = Some token"
  shows "authorize L self =
           (Return token,
            self\<lparr>session := \<lparr>
              headers = AList.update ''Authorization'' (''Bearer '' @ py_str L token)
                          (headers (session self)),
              replies = rest,
              calls = calls (session self) @
                [\<lparr>c_meth = ''post'', c_url = rstrip ''/'' baseurl @ ''/get-token/'',
                  c_args = [],
                  c_kwargs = [(''data'', PDict [(''password'', PStr password),
                                                (''username'', PStr username)])],
                  c_headers = headers (session self)\<rparr>]\<rparr>\<rparr>)
         \<and> (\<forall>m u as kws path. urlparse_path L u = Inr path \<longrightarrow>
               map_of (c_headers (last (calls (session
                  (snd (http_method L m (snd (authorize L self)) u as kws))))))
                 ''Authorization'' = Some (''Bearer '' @ py_str L token))"
proof -
  let ?self' = "self\<lparr>session := \<lparr>
              headers = AList.update ''Authorization'' (''Bearer '' @ py_str L token)
                          (headers (session self)),
              replies = rest,
              calls = calls (session self) @
                [\<lparr>c_meth = ''post'', c_url = rstrip ''/'' baseurl @ ''/get-token/'',
                  c_args = [],
                  c_kwargs = [(''data'', PDict [(''password'', PStr password),
                                                (''username'', PStr username)])],
                  c_headers = headers (session self)\<rparr>]\<rparr>\<rparr>"
  have eq: "authorize L self = (Return token, ?self')"
    using assms
    by (auto simp: authorize_def config_get_def session_request_def Let_def)
  have cfg: "map_of (config ?self') ''baseurl'' = Some baseurl"
    using assms(1) by simp
  have later: "map_of (c_headers (last (calls (session
                  (snd (http_method L m ?self' u as kws))))))
                 ''Authorization'' = Some (''Bearer '' @ py_str L token)"
    if "urlparse_path L u = Inr path" for m u as kws path
    using http_method_last_call [OF that cfg, of m as kws]
    by (simp add: update_Some_unfold)
  show ?thesis
    using later by (simp add: eq)
qed


theorem authorize_success_witness:
  "authorize \<lparr>urlparse_path = Inr, repr = (\<lambda>v. [])\<rparr>
     \<lparr>config = [(''baseurl'', ''http://localhost:8000/''), (''username'', ''u''),
                (''password'', ''p'')],
      session = \<lparr>headers = [(''Accept'', ''application/json'')],
                 replies = [Inr \<lparr>status_code = 200,
                                 json = Inr (PDict [(''token'', PStr ''abc'')])\<rparr>],
                 calls = []\<rparr>\<rparr> =
   (Return (PStr ''abc''),
     \<lparr>config = [(''baseurl'', ''http://localhost:8000/''), (''username'', ''u''),
                (''password'', ''p'')],
      session = \<lparr>headers = [(''Accept'', ''application/json''),
                            (''Authorization'', ''Bearer abc'')],
                 replies = [],
                 calls = [\<lparr>c_meth = ''post'', c_url = ''http://localhost:8000/get-token/'',
                           c_args = [],
                           c_kwargs = [(''data'', PDict [(''password'', PStr ''p''),
                                                         (''username'', PStr ''u'')])],
                           c_headers = [(''Accept'', ''application/json'')]\<rparr>]\<rparr>\<rparr>)
   \<and> map_of (c_headers (last (calls (session (snd (http_method
          \<lparr>urlparse_path = Inr, repr = (\<lambda>v. [])\<rparr> ''get''
          (snd (authorize \<lparr>urlparse_path = Inr, repr = (\<lambda>v. [])\<rparr>
             \<lparr>config = [(''baseurl'', ''http://localhost:8000/''), (''username'', ''u''),
                        (''password'', ''p'')],
              session = \<lparr>headers = [(''Accept'', ''application/json'')],
                 replies = [Inr \<lparr>status_code = 200,
                                 json = Inr (PDict [(''token'', PStr ''abc'')])\<rparr>],
                 calls = []\<rparr>\<rparr>))
          ''/objects'' [] []))))))
        ''Authorization'' = Some ''Bearer abc''"
proof -
  let ?L = "\<lparr>urlparse_path = Inr, repr = (\<lambda>v. [])\<rparr>"
  let ?resp = "\<lparr>status_code = 200, json = Inr (PDict [(''token'', PStr ''abc'')])\<rparr>"
  let ?self = "\<lparr>config = [(''baseurl'', ''http://localhost:8000/''), (''username'', ''u''),
                (''password'', ''p'')],
      session = \<lparr>headers = [(''Accept'', ''application/json'')],
                 replies = [Inr ?resp], calls = []\<rparr>\<rparr>"
  have h1: "map_of (config ?self) ''baseurl'' = Some ''http://localhost:8000/''" by simp
  have h2: "map_of (config ?self) ''password'' = Some ''p''" by simp
  have h3: "map_of (config ?self) ''username'' = Some ''u''" by simp
  have h4: "replies (session ?self) = Inr ?resp # []" by simp
  have h5: "status_code ?resp = 200 \<or> status_code ?resp = 201" by simp
  have h6: "json ?resp = Inr (PDict [(''token'', PStr ''abc'')])" by simp
  have h7: "map_of [(''token'', PStr ''abc'')] ''token'' = Some (PStr ''abc'')" by simp
  have h8: "urlparse_path ?L ''/objects'' = Inr ''/objects''" by simp
  note t = authorize_success [OF h1 h2 h3 h4 h5 h6 h7, of ?L]
  from t [THEN conjunct1] have a: "authorize ?L ?self = (Return (PStr ''abc''),
     \<lparr>config = [(''baseurl'', ''http://localhost:8000/''), (''username'', ''u''),
                (''password'', ''p'')],
      session = \<lparr>headers = [(''Accept'', ''application/json''),
                            (''Authorization'', ''Bearer abc'')],
                 replies = [],
                 calls = [\<lparr>c_meth = ''post'', c_url = ''http://localhost:8000/get-token/'',
                           c_args = [],
                           c_kwargs = [(''data'', PDict [(''password'', PStr ''p''),
                                                         (''username'', PStr ''u'')])],
                           c_headers = [(''Accept'', ''application/json'')]\<rparr>]\<rparr>\<rparr>)"
    by (simp add: py_str_def rstrip_def)
  from t [THEN conjunct2, rule_format, OF h8] have b: "map_of (c_headers (last (calls (session (snd (http_method ?L ''get''
          (snd (authorize ?L ?self)) ''/objects'' [] []))))))
        ''Authorization'' = Some ''Bearer abc''"
    by (simp add: py_str_def)
  from a b show ?thesis by blast
qed

text \<open>
  C4. When the token endpoint answers with any status other than 200 and 201,
  \<open>authorize\<close> raises \<open>ElectronBondAuthError\<close> with the status code in its message,
  and the session's headers are what they were.
\<close>

theorem authorize_failure:
  assumes "map_of (config self) ''baseurl'' = Some baseurl"
    and "map_of (config self) ''password'' = Some password"
    and "map_of (config self) ''username'' = Some username"
    and "replies (session self) = Inr resp # rest"
    and "status_code resp \<noteq> 200" and "status_code resp \<noteq> 201"
  shows "fst (authorize L self) =
           Raise (ElectronBondAuthError
                   (''Failed to authorize with status: '' @ str_int (status_code resp)))
         \<and> headers (session (snd (authorize L self))) = headers (session self)"
  using assms
  by (auto simp: authorize_def config_get_def session_request_def Let_def py_str_def)

theorem authorize_failure_witness:
  "fst (authorize \<lparr>urlparse_path = Inr, repr = (\<lambda>v. [])\<rparr>
     \<lparr>config = [(''baseurl'', ''http://localhost:8000/''), (''username'', ''u''),
                (''password'', ''p'')],
      session = \<lparr>headers = [(''Authorization'', ''Bearer old'')],
                 replies = [Inr \<lparr>status_code = 403,
                                 json = Inr (PDict [(''token'', PStr ''abc'')])\<rparr>],
                 calls = []\<rparr>\<rparr>) =
     Raise (ElectronBondAuthError ''Failed to authorize with status: 403'')
   \<and> headers (session (snd (authorize \<lparr>urlparse_path = Inr, repr = (\<lambda>v. [])\<rparr>
     \<lparr>config = [(''baseurl'', ''http://localhost:8000/''), (''username'', ''u''),
                (''password'', ''p'')],
      session = \<lparr>headers = [(''Authorization'', ''Bearer old'')],
                 replies = [Inr \<lparr>status_code = 403,
                                 json = Inr (PDict [(''token'', PStr ''abc'')])\<rparr>],
                 calls = []\<rparr>\<rparr>))) = [(''Authorization'', ''Bearer old'')]"
proof -
  let ?L = "\<lparr>urlparse_path = Inr, repr = (\<lambda>v. [])\<rparr>"
  let ?resp = "\<lparr>status_code = 403, json = Inr (PDict [(''token'', PStr ''abc'')])\<rparr>"
  let ?self = "\<lparr>config = [(''baseurl'', ''http://localhost:8000/''), (''username'', ''u''),
                (''password'', ''p'')],
      session = \<lparr>headers = [(''Authorization'', ''Bearer old'')],
                 replies = [Inr ?resp], calls = []\<rparr>\<rparr>"
  have h1: "map_of (config ?self) ''baseurl'' = Some ''http://localhost:8000/''" by simp
  have h2: "map_of (config ?self) ''password'' = Some ''p''" by simp
  have h3: "map_of (config ?self) ''username'' = Some ''u''" by simp
  have h4: "replies (session ?self) = Inr ?resp # []" by simp
  have h5: "status_code ?resp \<noteq> 200" by simp
  have h6: "status_code ?resp \<noteq> 201" by simp
  have n: "str_int 403 = ''403''" by code_simp
  show ?thesis
    using authorize_failure [OF h1 h2 h3 h4 h5 h6, of ?L] by (simp add: n)
qed

subsection \<open>OAuth authentication\<close>

text \<open>Where the \<^verbatim>\<open>try\<close> block of \<open>authorize_oauth\<close> raises.\<close>

lemma oauth_try_client_raises:
  assumes "map_of (config self) ''oauth_client_id'' = Some client_id"
    and "BackendApplicationClient A client_id = Inl e"
  shows "oauth_try A self = Inl e"
  using assms by (simp add: oauth_try_def config_get_def)

lemma oauth_try_session_raises:
  assumes "map_of (config self) ''oauth_client_id'' = Some client_id"
    and "BackendApplicationClient A client_id = Inr client"
    and "OAuth2Session A client = Inl e"
  shows "oauth_try A self = Inl e"
  using assms by (simp add: oauth_try_def config_get_def)

lemma oauth_try_fetch:
  assumes "map_of (config self) ''oauth_client_id'' = Some client_id"
    and "BackendApplicationClient A client_id = Inr client"
    and "OAuth2Session A client = Inr oauth"
    and "map_of (config self) ''oauth_client_baseurl'' = Some b"
    and "map_of (config self) ''oauth_client_secret'' = Some secret"
  shows "oauth_try A self = fetch_token A oauth (b @ ''/oauth2/token'') client_id secret"
  using assms by (simp add: oauth_try_def config_get_def)

lemma oauth_try_missing_client_id:
  assumes "map_of (config self) ''oauth_client_id'' = None"
  shows "oauth_try A self = Inl (KeyError ''oauth_client_id'')"
  using assms by (simp add: oauth_try_def config_get_def)

text \<open>
  C5. Whatever exception the \<^verbatim>\<open>try\<close> block of \<open>authorize_oauth\<close> raises (building
  the OAuth client, building the OAuth session, fetching the token, or looking up a
  configuration key), \<open>authorize_oauth\<close> raises \<open>ElectronBondAuthError\<close> instead, with
  the text of the original exception at the end of its message, and leaves the client as
  it was.
\<close>

theorem authorize_oauth_wraps:
  assumes "oauth_try A self = Inl e"
  shows "authorize_oauth L A self =
           (Raise (ElectronBondAuthError
                    (''Failed to authorize OAuth with message: '' @ str_exc L e)), self)"
  using assms by (simp add: authorize_oauth_def)

theorem authorize_oauth_wraps_witness:
  "authorize_oauth \<lparr>urlparse_path = Inr, repr = (\<lambda>v. [])\<rparr>
     \<lparr>BackendApplicationClient = (\<lambda>client_id. Inr client_id),
      OAuth2Session = (\<lambda>client. Inr client),
      fetch_token = (\<lambda>oauth token_url client_id client_secret.
         Inl (OtherException ''InvalidClientError'' ''(invalid_client) bad secret''))\<rparr>
     \<lparr>config = [(''oauth_client_id'', ''id''), (''oauth_client_secret'', ''s''),
                (''oauth_client_baseurl'', ''https://auth.example'')],
      session = \<lparr>headers = [], replies = [], calls = []\<rparr>\<rparr> =
   (Raise (ElectronBondAuthError
     ''Failed to authorize OAuth with message: (invalid_client) bad secret''),
    \<lparr>config = [(''oauth_client_id'', ''id''), (''oauth_client_secret'', ''s''),
                (''oauth_client_baseurl'', ''https://auth.example'')],
      session = \<lparr>headers = [], replies = [], calls = []\<rparr>\<rparr>)"
proof -
  let ?A = "\<lparr>BackendApplicationClient = (\<lambda>client_id. Inr client_id),
      OAuth2Session = (\<lambda>client. Inr client),
      fetch_token = (\<lambda>oauth token_url client_id client_secret.
         Inl (OtherException ''InvalidClientError'' ''(invalid_client) bad secret''))\<rparr>
       :: (string, string) oauthlib"
  let ?self = "\<lparr>config = [(''oauth_client_id'', ''id''), (''oauth_client_secret'', ''s''),
                (''oauth_client_baseurl'', ''https://auth.example'')],
      session = \<lparr>headers = [], replies = [], calls = []\<rparr>\<rparr>"
  have h: "oauth_try ?A ?self =
             Inl (OtherException ''InvalidClientError'' ''(invalid_client) bad secret'')"
    by (simp add: oauth_try_def config_get_def)
  show ?thesis
    using authorize_oauth_wraps [OF h, of "\<lparr>urlparse_path = Inr, repr = (\<lambda>v. [])\<rparr>"]
    by simp
qed

text \<open>
  C10. When the token fetch succeeds and the token has no \<open>access_token\<close> key,
  \<open>authorize_oauth\<close> raises the plain \<open>KeyError\<close> of the lookup, not an
  \<open>ElectronBondAuthError\<close>, and the client (its \<open>Authorization\<close> header included) is
  unchanged.
\<close>

theorem authorize_oauth_missing_access_token:
  assumes "oauth_try A self = Inr token"
    and "map_of token ''access_token'' = None"
  shows "authorize_oauth L A self = (Raise (KeyError ''access_token''), self)"
  using assms by (simp add: authorize_oauth_def)

theorem authorize_oauth_missing_access_token_witness:
  "authorize_oauth \<lparr>urlparse_path = Inr, repr = (\<lambda>v. [])\<rparr>
     \<lparr>BackendApplicationClient = (\<lambda>client_id. Inr client_id),
      OAuth2Session = (\<lambda>client. Inr client),
      fetch_token = (\<lambda>oauth token_url client_id client_secret.
         Inr [(''token_type'', PStr ''Bearer'')])\<rparr>
     \<lparr>config = [(''oauth_client_id'', ''id''), (''oauth_client_secret'', ''s''),
                (''oauth_client_baseurl'', ''https://auth.example'')],
      session = \<lparr>headers = [(''Authorization'', ''Bearer old'')], replies = [],
                 calls = []\<rparr>\<rparr> =
   (Raise (KeyError ''access_token''),
    \<lparr>config = [(''oauth_client_id'', ''id''), (''oauth_client_secret'', ''s''),
                (''oauth_client_baseurl'', ''https://auth.example'')],
      session = \<lparr>headers = [(''Authorization'', ''Bearer old'')], replies = [],
                 calls = []\<rparr>\<rparr>)"
proof -
  let ?A = "\<lparr>BackendApplicationClient = (\<lambda>client_id. Inr client_id),
      OAuth2Session = (\<lambda>client. Inr client),
      fetch_token = (\<lambda>oauth token_url client_id client_secret.
         Inr [(''token_type'', PStr ''Bearer'')])\<rparr> :: (string, string) oauthlib"
  let ?self = "\<lparr>config = [(''oauth_client_id'', ''id''), (''oauth_client_secret'', ''s''),
                (''oauth_client_baseurl'', ''https://auth.example'')],
      session = \<lparr>headers = [(''Authorization'', ''Bearer old'')], replies = [],
                 calls = []\<rparr>\<rparr>"
  have h1: "oauth_try ?A ?self = Inr [(''token_type'', PStr ''Bearer'')]"
    by (simp add: oauth_try_def config_get_def)
  have h2: "map_of [(''token_type'', PStr ''Bearer'')] ''access_token'' = None" by simp
  show ?thesis
    using authorize_oauth_missing_access_token [OF h1 h2,
            of "\<lparr>urlparse_path = Inr, repr = (\<lambda>v. [])\<rparr>"]
    by simp
qed

lemma authorize_oauth_success:
  assumes "oauth_try A self = Inr token"
    and "map_of token ''access_token'' = Some t"
  shows "authorize_oauth L A self =
           (Return t, self\<lparr>session := (session self)\<lparr>headers :=
              AList.update ''Authorization'' (''Bearer '' @ py_str L t)
                (headers (session self))\<rparr>\<rparr>)"
  using assms by (simp add: authorize_oauth_def Let_def)

subsection \<open>Pagination: the loop\<close>

lemma getitem_Inr_dict:
  "getitem v k = Inr x \<Longrightarrow> \<exists>d. v = PDict d \<and> map_of d k = Some x"
  by (cases v) (auto split: option.splits)

lemma add_one_Inr_PInt: "add_one p = Inr p' \<Longrightarrow> \<exists>n. p' = PInt n"
  by (cases p) auto

lemma http_method_get_reply:
  assumes "map_of (config self) ''baseurl'' = Some b"
    and "urlparse_path L u = Inr path"
    and "replies (session self) = x # rest"
  shows "http_method L ''get'' self u [] kws =
           (case x of Inl e \<Rightarrow> Raise e | Inr r \<Rightarrow> Return r,
            self\<lparr>session := (session self)\<lparr>replies := rest,
               calls := calls (session self) @
                 [page_fetch (rstrip ''/'' b @ ''/'' @ lstrip ''/'' path)
                    (headers (session self)) kws]\<rparr>\<rparr>)"
  using assms
  by (simp add: http_method_def config_get_def session_request_def Let_def page_fetch_def
           split: sum.splits)

lemma http_method_get_no_reply:
  assumes "map_of (config self) ''baseurl'' = Some b"
    and "urlparse_path L u = Inr path"
    and "replies (session self) = []"
  shows "http_method L ''get'' self u [] kws =
           (NoReply,
            self\<lparr>session := (session self)\<lparr>
               calls := calls (session self) @
                 [page_fetch (rstrip ''/'' b @ ''/'' @ lstrip ''/'' path)
                    (headers (session self)) kws]\<rparr>\<rparr>)"
  using assms
  by (simp add: http_method_def config_get_def session_request_def Let_def page_fetch_def)

text \<open>One turn of the loop on a page with results and a next page.\<close>

lemma get_paged_loop_step:
  assumes cfg: "map_of (config self) ''baseurl'' = Some b"
    and url: "urlparse_path L u = Inr path"
    and m: "more_page m"
    and p: "map_of params ''page'' = Some p" "add_one p = Inr p'"
    and rep: "replies (session self) = Inr r # rest"
    and j: "json r = Inr j"
  shows "get_paged_loop L u params m self =
           (case get_paged_loop L u (AList.update ''page'' p' params) j
                   (self\<lparr>session := (session self)\<lparr>replies := rest,
                      calls := calls (session self) @
                        [page_fetch (rstrip ''/'' b @ ''/'' @ lstrip ''/'' path)
                           (headers (session self))
                           [(''params'', PDict (AList.update ''page'' p' params))]]\<rparr>\<rparr>) of
              (later, ending, self') \<Rightarrow> (page_items m @ later, ending, self'))"
proof -
  from m obtain xs where xs: "getitem m ''results'' = Inr (PList xs)" "xs \<noteq> []"
    and nx: "next_truthy m"
    by (auto simp: more_page_def results_array_def split: sum.splits pyval.splits option.splits)
  from xs(1) obtain d where d: "m = PDict d" using getitem_Inr_dict by blast
  from nx d have t: "truthy (case map_of d ''next'' of None \<Rightarrow> PNone | Some x \<Rightarrow> x)"
    by (simp add: next_truthy_def)
  have items: "page_items (PDict d) = xs"
    using xs by (simp add: d page_items_def results_array_def)
  show ?thesis
    apply (subst get_paged_loop.simps)
    using xs t p j
    by (simp add: d items http_method_get_reply [OF cfg url rep] Let_def)
qed


text \<open>
  Several turns: on the pages \<open>m0 # ms\<close>, which all have results and a next page, the loop
  yields their items, fetches one page for each of them, and goes on with the last page
  fetched.
\<close>

lemma get_paged_loop_through:
  assumes cfg: "map_of (config self) ''baseurl'' = Some b"
    and url: "urlparse_path L u = Inr path"
    and more: "\<forall>m \<in> set (m0 # ms). more_page m"
    and p: "map_of params ''page'' = Some p" "add_one p = Inr (PInt q)"
    and rep: "replies (session self) = map Inr rs @ rest"
    and js: "map json rs = map Inr (ms @ [jl])"
  shows "get_paged_loop L u params m0 self =
           (case get_paged_loop L u (AList.update ''page'' (PInt (q + int (length ms))) params) jl
                   (self\<lparr>session := (session self)\<lparr>replies := rest,
                      calls := calls (session self) @
                        map (\<lambda>i. page_fetch (rstrip ''/'' b @ ''/'' @ lstrip ''/'' path)
                                  (headers (session self))
                                  [(''params'',
                                    PDict (AList.update ''page'' (PInt (q + int i)) params))])
                          [0..<Suc (length ms)]\<rparr>\<rparr>) of
              (later, ending, self') \<Rightarrow>
                (concat (map page_items (m0 # ms)) @ later, ending, self'))"
  using more p rep js cfg
proof (induction ms arbitrary: m0 params p q self rs)
  case Nil
  from Nil.prems(5) obtain r where rs: "rs = [r]" and j: "json r = Inr jl"
    by (cases rs) auto
  from Nil.prems(4) rs have rep': "replies (session self) = Inr r # rest" by simp
  from Nil.prems(1) have m0: "more_page m0" by simp
  show ?case
    using get_paged_loop_step [OF Nil.prems(6) url m0 Nil.prems(2,3) rep' j]
    by simp
next
  case (Cons m1 ms)
  let ?full = "rstrip ''/'' b @ ''/'' @ lstrip ''/'' path"
  let ?params1 = "AList.update ''page'' (PInt q) params"
  from Cons.prems(5) obtain r rs' where rs: "rs = r # rs'" and j: "json r = Inr m1"
    and js': "map json rs' = map Inr (ms @ [jl])"
    by (cases rs) auto
  let ?self1 = "self\<lparr>session := (session self)\<lparr>replies := map Inr rs' @ rest,
                      calls := calls (session self) @
                        [page_fetch ?full (headers (session self))
                           [(''params'', PDict ?params1)]]\<rparr>\<rparr>"
  from Cons.prems(4) rs have rep': "replies (session self) = Inr r # map Inr rs' @ rest"
    by simp
  from Cons.prems(1) have m0: "more_page m0" and more': "\<forall>m \<in> set (m1 # ms). more_page m"
    by simp_all
  have step: "get_paged_loop L u params m0 self =
                (case get_paged_loop L u ?params1 m1 ?self1 of
                   (later, ending, self') \<Rightarrow> (page_items m0 @ later, ending, self'))"
    using get_paged_loop_step [OF Cons.prems(6) url m0 Cons.prems(2,3) rep' j] .
  have p1: "map_of ?params1 ''page'' = Some (PInt q)" by (simp add: update_Some_unfold)
  have a1: "add_one (PInt q) = Inr (PInt (q + 1))" by simp
  have rep1: "replies (session ?self1) = map Inr rs' @ rest" by simp
  have cfg1: "map_of (config ?self1) ''baseurl'' = Some b" using Cons.prems(6) by simp
  note ih = Cons.IH [OF more' p1 a1 rep1 js' cfg1]
  have e1: "AList.update ''page'' (PInt (q + 1 + int (length ms))) ?params1 =
            AList.update ''page'' (PInt (q + int (length (m1 # ms)))) params"
    by (simp add: algebra_simps)
  have idx: "map (\<lambda>i. page_fetch ?full (headers (session self))
                        [(''params'', PDict (AList.update ''page'' (PInt (q + int i)) params))])
               [0..<Suc (Suc (length ms))] =
             page_fetch ?full (headers (session self)) [(''params'', PDict ?params1)] #
             map (\<lambda>i. page_fetch ?full (headers (session self))
                        [(''params'',
                          PDict (AList.update ''page'' (PInt (q + 1 + int i)) params))])
               [0..<Suc (length ms)]"
    by (subst map_upt_Suc) (simp add: algebra_simps del: upt_Suc)
  have e2: "?self1\<lparr>session := (session ?self1)\<lparr>replies := rest,
               calls := calls (session ?self1) @
                 map (\<lambda>i. page_fetch ?full (headers (session ?self1))
                        [(''params'',
                          PDict (AList.update ''page'' (PInt (q + 1 + int i)) ?params1))])
                   [0..<Suc (length ms)]\<rparr>\<rparr> =
            self\<lparr>session := (session self)\<lparr>replies := rest,
               calls := calls (session self) @
                 map (\<lambda>i. page_fetch ?full (headers (session self))
                        [(''params'', PDict (AList.update ''page'' (PInt (q + int i)) params))])
                   [0..<Suc (length (m1 # ms))]\<rparr>\<rparr>"
    using idx by (simp del: upt_Suc)
  show ?case
    unfolding step ih e1 e2 by (simp split: prod.splits)
qed


lemma params_after_Suc:
  assumes "map_of params ''page'' = Some p" and "add_one p = Inr (PInt q)"
  shows "params_after params (Suc i) = AList.update ''page'' (PInt (q + int i)) params"
  using assms
proof (induction i arbitrary: params p q)
  case 0
  then show ?case by simp
next
  case (Suc i)
  have p1: "map_of (AList.update ''page'' (PInt q) params) ''page'' = Some (PInt q)"
    by (simp add: update_Some_unfold)
  have a1: "add_one (PInt q) = Inr (PInt (q + 1))" by simp
  have "params_after params (Suc (Suc i)) =
          params_after (AList.update ''page'' (PInt q) params) (Suc i)"
    using Suc.prems by simp
  also have "\<dots> = AList.update ''page'' (PInt (q + 1 + int i))
                      (AList.update ''page'' (PInt q) params)"
    by (rule Suc.IH [OF p1 a1])
  finally show ?case by (simp add: algebra_simps)
qed

lemma params_after_PInt:
  assumes "map_of params ''page'' = Some (PInt n)"
  shows "params_after params k = AList.update ''page'' (PInt (n + int k)) params"
proof (cases k)
  case 0
  with assms show ?thesis by (simp add: update_triv)
next
  case (Suc i)
  have "add_one (PInt n) = Inr (PInt (n + 1))" by simp
  from params_after_Suc [OF assms this, of i] Suc show ?thesis by (simp add: algebra_simps)
qed

text \<open>The loop on a page it stops at, and on a page it cannot handle.\<close>

lemma get_paged_loop_final:
  assumes "final_page j"
  shows "get_paged_loop L u params j self = (page_items j, Return (), self)"
proof -
  from assms obtain xs where xs: "getitem j ''results'' = Inr (PList xs)"
    and stop: "xs = [] \<or> \<not> next_truthy j"
    by (auto simp: final_page_def results_array_def split: sum.splits pyval.splits option.splits)
  from xs obtain d where d: "j = PDict d" using getitem_Inr_dict by blast
  have items: "page_items (PDict d) = xs"
    using xs by (simp add: d page_items_def results_array_def)
  show ?thesis
    apply (subst get_paged_loop.simps)
    using xs stop
    by (auto simp: d items next_truthy_def)
qed

lemma get_paged_loop_bad:
  assumes "getitem j ''results'' = Inl e \<or> dict_get j ''next'' = Inl e"
  shows "get_paged_loop L u params j self = ([], Raise (return_error L j), self)"
proof -
  have "\<exists>e'. getitem j ''results'' = Inl e'"
    using assms by (cases j) auto
  then show ?thesis
    by (subst get_paged_loop.simps) auto
qed

lemma get_paged_loop_fetch_raises:
  assumes cfg: "map_of (config self) ''baseurl'' = Some b"
    and url: "urlparse_path L u = Inr path"
    and m: "more_page m"
    and p: "map_of params ''page'' = Some p" "add_one p = Inr p'"
    and rep: "replies (session self) = Inl e # rest"
  shows "get_paged_loop L u params m self =
           (page_items m, Raise (return_error L m),
            self\<lparr>session := (session self)\<lparr>replies := rest,
               calls := calls (session self) @
                 [page_fetch (rstrip ''/'' b @ ''/'' @ lstrip ''/'' path)
                    (headers (session self))
                    [(''params'', PDict (AList.update ''page'' p' params))]]\<rparr>\<rparr>)"
proof -
  from m obtain xs where xs: "getitem m ''results'' = Inr (PList xs)" "xs \<noteq> []"
    and nx: "next_truthy m"
    by (auto simp: more_page_def results_array_def split: sum.splits pyval.splits option.splits)
  from xs(1) obtain d where d: "m = PDict d" using getitem_Inr_dict by blast
  from nx d have t: "truthy (case map_of d ''next'' of None \<Rightarrow> PNone | Some x \<Rightarrow> x)"
    by (simp add: next_truthy_def)
  have items: "page_items (PDict d) = xs"
    using xs by (simp add: d page_items_def results_array_def)
  show ?thesis
    apply (subst get_paged_loop.simps)
    using xs t p
    by (simp add: d items http_method_get_reply [OF cfg url rep] Let_def)
qed

text \<open>
  A whole run: the first fetch, then the loop through the pages \<open>ms\<close> that have results
  and a next page, up to the page \<open>jl\<close> fetched last.
\<close>

lemma get_paged_run:
  assumes cfg: "map_of (config self) ''baseurl'' = Some b"
    and url: "urlparse_path L u = Inr path"
    and ip: "initial_params kws = Inr (params, kws')"
    and inc: "ms \<noteq> [] \<longrightarrow> page_incrementable params"
    and rep: "replies (session self) = map Inr rs @ rest"
    and js: "map json rs = map Inr (ms @ [jl])"
    and more: "\<forall>m \<in> set ms. more_page m"
  shows "get_paged L self u as kws =
           (case get_paged_loop L u (params_after params (length ms)) jl
                   (self\<lparr>session := (session self)\<lparr>replies := rest,
                      calls := calls (session self) @
                        page_fetch (rstrip ''/'' b @ ''/'' @ lstrip ''/'' path)
                          (headers (session self)) ((''params'', PDict params) # kws') #
                        map (\<lambda>i. page_fetch (rstrip ''/'' b @ ''/'' @ lstrip ''/'' path)
                                  (headers (session self))
                                  [(''params'', PDict (params_after params (Suc i)))])
                          [0..<length ms]\<rparr>\<rparr>) of
              (later, ending, self') \<Rightarrow> (concat (map page_items ms) @ later, ending, self'))"
proof (cases ms)
  case Nil
  with js obtain r where rs: "rs = [r]" and j: "json r = Inr jl"
    by (cases rs) auto
  from rep rs have rep': "replies (session self) = Inr r # rest" by simp
  show ?thesis
    using ip j
    by (simp add: Nil get_paged_def http_method_get_reply [OF cfg url rep'] split: prod.splits)
next
  case (Cons m0 ms')
  let ?full = "rstrip ''/'' b @ ''/'' @ lstrip ''/'' path"
  from js Cons obtain r rs' where rs: "rs = r # rs'" and j: "json r = Inr m0"
    and js': "map json rs' = map Inr (ms' @ [jl])"
    by (cases rs) auto
  from rep rs have rep': "replies (session self) = Inr r # map Inr rs' @ rest" by simp
  let ?self1 = "self\<lparr>session := (session self)\<lparr>replies := map Inr rs' @ rest,
                   calls := calls (session self) @
                     [page_fetch ?full (headers (session self))
                        ((''params'', PDict params) # kws')]\<rparr>\<rparr>"
  have first: "get_paged L self u as kws = get_paged_loop L u params m0 ?self1"
    using ip j by (simp add: get_paged_def http_method_get_reply [OF cfg url rep'])
  from inc Cons obtain p p' where p: "map_of params ''page'' = Some p" "add_one p = Inr p'"
    by (auto simp: page_incrementable_def split: option.splits sum.splits)
  from p(2) obtain q where q: "p' = PInt q" using add_one_Inr_PInt by blast
  note pa = params_after_Suc [OF p(1) p(2) [unfolded q]]
  have more': "\<forall>m \<in> set (m0 # ms'). more_page m" using more Cons by simp
  have cfg1: "map_of (config ?self1) ''baseurl'' = Some b" using cfg by simp
  have rep1: "replies (session ?self1) = map Inr rs' @ rest" by simp
  note through = get_paged_loop_through [OF cfg1 url more' p(1) p(2) [unfolded q] rep1 js']
  have e2: "?self1\<lparr>session := (session ?self1)\<lparr>replies := rest,
               calls := calls (session ?self1) @
                 map (\<lambda>i. page_fetch ?full (headers (session ?self1))
                        [(''params'', PDict (AList.update ''page'' (PInt (q + int i)) params))])
                   [0..<Suc (length ms')]\<rparr>\<rparr> =
            self\<lparr>session := (session self)\<lparr>replies := rest,
               calls := calls (session self) @
                 page_fetch ?full (headers (session self)) ((''params'', PDict params) # kws') #
                 map (\<lambda>i. page_fetch ?full (headers (session self))
                        [(''params'', PDict (params_after params (Suc i)))])
                   [0..<length ms]\<rparr>\<rparr>"
    by (simp add: pa Cons del: upt_Suc params_after.simps)
  have e1: "AList.update ''page'' (PInt (q + int (length ms'))) params =
            params_after params (length ms)"
    by (simp add: pa Cons del: params_after.simps)
  show ?thesis
    unfolding first through e1 e2 by (simp add: Cons)
qed

subsection \<open>Pagination: what is yielded\<close>

lemma requested_page_fetch:
  "requested_page (page_fetch full hdrs ((''params'', PDict ps) # kws)) = map_of ps ''page''"
  by (simp add: requested_page_def page_fetch_def)

lemma page_fetch_sel:
  "c_meth (page_fetch full hdrs kws) = ''get''" "c_url (page_fetch full hdrs kws) = full"
  by (simp_all add: page_fetch_def)

text \<open>
  C1. Let the session answer the page fetches of \<open>get_paged\<close> with the parsed pages
  \<open>ms @ [jl]\<close>, in this order, where every page of \<open>ms\<close> has a non-empty \<open>results\<close>
  array and a true \<open>next\<close>, and \<open>jl\<close> has an empty \<open>results\<close> array, or a false or
  absent \<open>next\<close>. Then \<open>get_paged\<close> yields exactly the elements of the \<open>results\<close>
  arrays, page after page and in array order (nothing for an empty array), and then is
  exhausted; it has fetched one page for each of these and none after \<open>jl\<close>: the replies
  \<open>rest\<close> that follow are untouched. The fetches are \<open>get\<close> calls on the prefixed URL,
  and the fetch number \<open>i\<close> (from 0) asks for the page that \<open>i\<close> executions of
  \<^verbatim>\<open>params["page"] += 1\<close> give: when the first page asked for is the integer \<open>n\<close>
  (1 unless the caller's \<open>params\<close> say otherwise), the pages asked for are
  \<open>n\<close>, \<open>n + 1\<close>, \<open>n + 2\<close>, ... in this order, so the page yielded in position \<open>i\<close>
  is the answer to the request for page \<open>n + i\<close>. (The page number must admit
  \<^verbatim>\<open>+= 1\<close> when there is more than one page, which holds unless the caller's own
  \<open>params\<close> put something else than a number under \<open>page\<close>.)
\<close>

theorem get_paged_yields_pages:
  assumes cfg: "map_of (config self) ''baseurl'' = Some b"
    and url: "urlparse_path L u = Inr path"
    and ip: "initial_params kws = Inr (params, kws')"
    and inc: "ms \<noteq> [] \<longrightarrow> page_incrementable params"
    and rep: "replies (session self) = map Inr rs @ rest"
    and js: "map json rs = map Inr (ms @ [jl])"
    and more: "\<forall>m \<in> set ms. more_page m"
    and fin: "final_page jl"
  shows "fst (get_paged L self u as kws) = concat (map page_items (ms @ [jl])) \<and>
         fst (snd (get_paged L self u as kws)) = Return () \<and>
         replies (session (snd (snd (get_paged L self u as kws)))) = rest \<and>
         length (calls (session (snd (snd (get_paged L self u as kws))))) =
           length (calls (session self)) + length (ms @ [jl]) \<and>
         map (\<lambda>c. (c_meth c, c_url c, requested_page c))
           (drop (length (calls (session self)))
              (calls (session (snd (snd (get_paged L self u as kws)))))) =
         map (\<lambda>i. (''get'', rstrip ''/'' b @ ''/'' @ lstrip ''/'' path,
                    map_of (params_after params i) ''page''))
           [0..<length (ms @ [jl])] \<and>
         (\<forall>n. map_of params ''page'' = Some (PInt n) \<longrightarrow>
            map requested_page
              (drop (length (calls (session self)))
                 (calls (session (snd (snd (get_paged L self u as kws)))))) =
            map (\<lambda>i. Some (PInt (n + int i))) [0..<length (ms @ [jl])])"
proof -
  let ?full = "rstrip ''/'' b @ ''/'' @ lstrip ''/'' path"
  let ?new = "page_fetch ?full (headers (session self)) ((''params'', PDict params) # kws') #
              map (\<lambda>i. page_fetch ?full (headers (session self))
                        [(''params'', PDict (params_after params (Suc i)))])
                [0..<length ms]"
  have run: "get_paged L self u as kws =
               (concat (map page_items ms) @ page_items jl, Return (),
                self\<lparr>session := (session self)\<lparr>replies := rest,
                   calls := calls (session self) @ ?new\<rparr>\<rparr>)"
    unfolding get_paged_run [OF cfg url ip inc rep js more] get_paged_loop_final [OF fin]
    by simp
  have asked: "map (\<lambda>c. (c_meth c, c_url c, requested_page c)) ?new =
               map (\<lambda>i. (''get'', ?full, map_of (params_after params i) ''page''))
                 [0..<Suc (length ms)]"
    by (subst map_upt_Suc) (simp add: comp_def requested_page_fetch page_fetch_sel del: upt_Suc params_after.simps(2))
  have ints: "map requested_page ?new = map (\<lambda>i. Some (PInt (n + int i))) [0..<Suc (length ms)]"
    if pg: "map_of params ''page'' = Some (PInt n)" for n
  proof -
    have "map requested_page ?new =
            map (\<lambda>i. map_of (params_after params i) ''page'') [0..<Suc (length ms)]"
      by (subst map_upt_Suc) (simp add: comp_def requested_page_fetch page_fetch_sel del: upt_Suc params_after.simps(2))
    also have "\<dots> = map (\<lambda>i. Some (PInt (n + int i))) [0..<Suc (length ms)]"
      by (simp add: params_after_PInt [OF pg] update_conv' del: upt_Suc params_after.simps(2))
    finally show ?thesis .
  qed
  show ?thesis
    unfolding run using asked ints by simp
qed


theorem get_paged_yields_pages_witness:
  "fst (get_paged \<lparr>urlparse_path = Inr, repr = (\<lambda>v. [])\<rparr>
     \<lparr>config = [(''baseurl'', ''http://localhost:8000/'')],
      session = \<lparr>headers = [],
                 replies = [Inr \<lparr>status_code = 200,
                                 json = Inr (PDict [(''results'', PList [PInt 1, PInt 2]),
                                                    (''next'', PStr ''/objects?page=2'')])\<rparr>,
                            Inr \<lparr>status_code = 200,
                                 json = Inr (PDict [(''results'', PList [PInt 3]),
                                                    (''next'', PNone)])\<rparr>],
                 calls = []\<rparr>\<rparr> ''/objects'' [] []) = [PInt 1, PInt 2, PInt 3]
   \<and> map requested_page (calls (session (snd (snd (get_paged
     \<lparr>urlparse_path = Inr, repr = (\<lambda>v. [])\<rparr>
     \<lparr>config = [(''baseurl'', ''http://localhost:8000/'')],
      session = \<lparr>headers = [],
                 replies = [Inr \<lparr>status_code = 200,
                                 json = Inr (PDict [(''results'', PList [PInt 1, PInt 2]),
                                                    (''next'', PStr ''/objects?page=2'')])\<rparr>,
                            Inr \<lparr>status_code = 200,
                                 json = Inr (PDict [(''results'', PList [PInt 3]),
                                                    (''next'', PNone)])\<rparr>],
                 calls = []\<rparr>\<rparr> ''/objects'' [] []))))) = [Some (PInt 1), Some (PInt 2)]
   \<and> fst (snd (get_paged \<lparr>urlparse_path = Inr, repr = (\<lambda>v. [])\<rparr>
     \<lparr>config = [(''baseurl'', ''http://localhost:8000/'')],
      session = \<lparr>headers = [],
                 replies = [Inr \<lparr>status_code = 200,
                                 json = Inr (PDict [(''results'', PList [PInt 1, PInt 2]),
                                                    (''next'', PStr ''/objects?page=2'')])\<rparr>,
                            Inr \<lparr>status_code = 200,
                                 json = Inr (PDict [(''results'', PList [PInt 3]),
                                                    (''next'', PNone)])\<rparr>],
                 calls = []\<rparr>\<rparr> ''/objects'' [] [])) = Return ()
   \<and> fst (get_paged \<lparr>urlparse_path = Inr, repr = (\<lambda>v. [])\<rparr>
     \<lparr>config = [(''baseurl'', ''http://localhost:8000/'')],
      session = \<lparr>headers = [],
                 replies = [Inr \<lparr>status_code = 200,
                                 json = Inr (PDict [(''results'', PList []),
                                                    (''next'', PNone)])\<rparr>],
                 calls = []\<rparr>\<rparr> ''/objects'' [] []) = []
   \<and> fst (snd (get_paged \<lparr>urlparse_path = Inr, repr = (\<lambda>v. [])\<rparr>
     \<lparr>config = [(''baseurl'', ''http://localhost:8000/'')],
      session = \<lparr>headers = [],
                 replies = [Inr \<lparr>status_code = 200,
                                 json = Inr (PDict [(''results'', PList []),
                                                    (''next'', PNone)])\<rparr>],
                 calls = []\<rparr>\<rparr> ''/objects'' [] [])) = Return ()"
proof -
  let ?L = "\<lparr>urlparse_path = Inr, repr = (\<lambda>v. [])\<rparr>"
  let ?p1 = "PDict [(''results'', PList [PInt 1, PInt 2]), (''next'', PStr ''/objects?page=2'')]"
  let ?p2 = "PDict [(''results'', PList [PInt 3]), (''next'', PNone)]"
  let ?p0 = "PDict [(''results'', PList []), (''next'', PNone)]"
  let ?r1 = "\<lparr>status_code = 200, json = Inr ?p1\<rparr>"
  let ?r2 = "\<lparr>status_code = 200, json = Inr ?p2\<rparr>"
  let ?r0 = "\<lparr>status_code = 200, json = Inr ?p0\<rparr>"
  let ?A = "\<lparr>config = [(''baseurl'', ''http://localhost:8000/'')],
             session = \<lparr>headers = [], replies = [Inr ?r1, Inr ?r2], calls = []\<rparr>\<rparr>"
  let ?B = "\<lparr>config = [(''baseurl'', ''http://localhost:8000/'')],
             session = \<lparr>headers = [], replies = [Inr ?r0], calls = []\<rparr>\<rparr>"
  have url: "urlparse_path ?L ''/objects'' = Inr ''/objects''" by simp
  have ip: "initial_params [] = Inr ([(''page'', PInt 1)], [])"
    by (simp add: initial_params_def)
  have cfgA: "map_of (config ?A) ''baseurl'' = Some ''http://localhost:8000/''" by simp
  have incA: "[?p1] \<noteq> [] \<longrightarrow> page_incrementable [(''page'', PInt 1)]"
    by (simp add: page_incrementable_def)
  have repA: "replies (session ?A) = map Inr [?r1, ?r2] @ []" by simp
  have jsA: "map json [?r1, ?r2] = map Inr ([?p1] @ [?p2])" by simp
  have moreA: "\<forall>m \<in> set [?p1]. more_page m"
    by (simp add: more_page_def results_array_def next_truthy_def)
  have finA: "final_page ?p2"
    by (simp add: final_page_def results_array_def next_truthy_def)
  have cfgB: "map_of (config ?B) ''baseurl'' = Some ''http://localhost:8000/''" by simp
  have incB: "([] :: pyval list) \<noteq> [] \<longrightarrow> page_incrementable [(''page'', PInt 1)]" by simp
  have repB: "replies (session ?B) = map Inr [?r0] @ []" by simp
  have jsB: "map json [?r0] = map Inr ([] @ [?p0])" by simp
  have moreB: "\<forall>m \<in> set []. more_page m" by simp
  have finB: "final_page ?p0"
    by (simp add: final_page_def results_array_def next_truthy_def)
  have a: "fst (get_paged ?L ?A ''/objects'' [] []) = [PInt 1, PInt 2, PInt 3] \<and>
           fst (snd (get_paged ?L ?A ''/objects'' [] [])) = Return ()"
    using get_paged_yields_pages [OF cfgA url ip incA repA jsA moreA finA, of "[]"]
    by (simp add: page_items_def results_array_def)
  have b: "fst (get_paged ?L ?B ''/objects'' [] []) = [] \<and>
           fst (snd (get_paged ?L ?B ''/objects'' [] [])) = Return ()"
    using get_paged_yields_pages [OF cfgB url ip incB repB jsB moreB finB, of "[]"]
    by (simp add: page_items_def results_array_def)
  have pg: "map_of [(''page'', PInt 1)] ''page'' = Some (PInt 1)" by simp
  have c: "map requested_page (calls (session (snd (snd (get_paged ?L ?A ''/objects'' [] []))))) =
             [Some (PInt 1), Some (PInt 2)]"
    using get_paged_yields_pages [OF cfgA url ip incA repA jsA moreA finA, of "[]",
            THEN conjunct2, THEN conjunct2, THEN conjunct2, THEN conjunct2, THEN conjunct2,
            rule_format, OF pg]
    by simp
  from a b c show ?thesis by blast
qed

subsection \<open>The operations keep the session's headers\<close>

lemma session_extends_refl: "session_extends self self"
  by (simp add: session_extends_def)

lemma session_extends_trans:
  assumes "session_extends a b" and "session_extends b c"
  shows "session_extends a c"
proof -
  from assms(1) obtain n1 where b: "calls (session b) = calls (session a) @ n1"
    and g1: "list_all (\<lambda>c. c_headers c = headers (session a)) n1"
    and hb: "headers (session b) = headers (session a)" and cb: "config b = config a"
    unfolding session_extends_def
    by (metis append_take_drop_id)
  from assms(2) obtain n2 where c: "calls (session c) = calls (session b) @ n2"
    and g2: "list_all (\<lambda>c. c_headers c = headers (session b)) n2"
    and hc: "headers (session c) = headers (session b)" and cc: "config c = config b"
    unfolding session_extends_def
    by (metis append_take_drop_id)
  show ?thesis
    using g1 g2 by (simp add: session_extends_def b c hb hc cb cc)
qed

lemma http_method_extends: "session_extends self (snd (http_method L m self u as kws))"
  by (simp add: http_method_def session_request_def Let_def session_extends_def
           split: sum.splits list.splits)

lemma http_method_extends_result:
  "http_method L m self u as kws = (r, self') \<Longrightarrow> session_extends self self'"
  using http_method_extends [of self L m u as kws] by simp

lemma get_paged_loop_extends:
  "session_extends self (snd (snd (get_paged_loop L u params j self)))"
proof (induction L u params j self rule: get_paged_loop.induct)
  case (1 L u params current_json self)
  show ?case
  proof (cases "\<exists>results n objs nxt page page' current_page self' current_json'.
           getitem current_json ''results'' = Inr results \<and> py_len results = Inr n \<and> 0 < n \<and>
           py_iter results = Inr objs \<and> dict_get current_json ''next'' = Inr nxt \<and> truthy nxt \<and>
           getitem (PDict params) ''page'' = Inr page \<and> add_one page = Inr page' \<and>
           http_method L ''get'' self u [] [(''params'', PDict (AList.update ''page'' page' params))]
             = (Return current_page, self') \<and> json current_page = Inr current_json'")
    case True
    then obtain results n objs nxt page page' current_page self' current_json' where
      h: "getitem current_json ''results'' = Inr results" "py_len results = Inr n" "0 < n"
         "py_iter results = Inr objs" "dict_get current_json ''next'' = Inr nxt" "truthy nxt"
         "getitem (PDict params) ''page'' = Inr page" "add_one page = Inr page'"
         "http_method L ''get'' self u [] [(''params'', PDict (AList.update ''page'' page' params))]
             = (Return current_page, self')" "json current_page = Inr current_json'"
      by blast
    have "\<not> \<not> 0 < n" using h(3) by simp
    note ih = "1.IH" [OF h(1) h(2) this h(4) h(5) _ h(7) h(8) refl h(9) [symmetric] refl h(10)]
    have ih': "session_extends self'
                 (snd (snd (get_paged_loop L u (AList.update ''page'' page' params)
                    current_json' self')))"
      using ih h(6) by simp
    have s1: "session_extends self self'"
      using http_method_extends [of self L "''get''" u "[]"
               "[(''params'', PDict (AList.update ''page'' page' params))]"] h(9) by simp
    have "snd (snd (get_paged_loop L u params current_json self)) =
          snd (snd (get_paged_loop L u (AList.update ''page'' page' params) current_json' self'))"
      apply (subst get_paged_loop.simps)
      using h by (simp add: Let_def split: prod.splits)
    then show ?thesis using session_extends_trans [OF s1 ih'] by simp
  next
    case False
    show ?thesis
      apply (subst get_paged_loop.simps)
      using False
      by (auto simp: Let_def session_extends_refl
               split: sum.splits prod.splits res.splits
               dest: http_method_extends_result)
  qed
qed


lemma get_paged_extends: "session_extends self (snd (snd (get_paged L self u as kws)))"
  unfolding get_paged_def
  by (auto simp: session_extends_refl get_paged_loop_extends
           split: sum.splits prod.splits res.splits
           dest: http_method_extends_result
           intro: session_extends_trans [OF _ get_paged_loop_extends])

lemma run_op_extends: "session_extends self (run_op L self x)"
  by (cases x) (simp_all add: http_method_extends get_paged_extends)

lemma run_ops_extends: "session_extends self (run_ops L self xs)"
proof (induction xs arbitrary: self)
  case Nil
  show ?case by (simp add: session_extends_refl)
next
  case (Cons x xs)
  show ?case
    using session_extends_trans [OF run_op_extends Cons.IH] by simp
qed

text \<open>
  C9. Once the session carries an \<open>Authorization\<close> header, as \<open>authorize\<close> and
  \<open>authorize_oauth\<close> leave it, no sequence of proxied verbs and \<open>get_paged\<close> runs
  removes or changes it, and every call the session receives during that sequence carries
  it.
\<close>

theorem authorization_header_persists:
  assumes "map_of (headers (session self)) ''Authorization'' = Some h"
  shows "map_of (headers (session (run_ops L self ops))) ''Authorization'' = Some h \<and>
         (\<forall>c \<in> set (drop (length (calls (session self)))
                        (calls (session (run_ops L self ops)))).
            map_of (c_headers c) ''Authorization'' = Some h)"
  using assms run_ops_extends [of self L ops]
  by (auto simp: session_extends_def list_all_iff)

theorem authorization_header_persists_witness:
  "map_of (headers (session (run_ops \<lparr>urlparse_path = Inr, repr = (\<lambda>v. [])\<rparr>
      (snd (authorize \<lparr>urlparse_path = Inr, repr = (\<lambda>v. [])\<rparr>
        \<lparr>config = [(''baseurl'', ''http://localhost:8000/''), (''username'', ''u''),
                   (''password'', ''p'')],
         session = \<lparr>headers = [],
            replies = [Inr \<lparr>status_code = 200,
                            json = Inr (PDict [(''token'', PStr ''abc'')])\<rparr>,
                       Inr \<lparr>status_code = 204, json = Inl (OtherException ''JSONDecodeError'' [])\<rparr>,
                       Inr \<lparr>status_code = 200,
                            json = Inr (PDict [(''results'', PList [PInt 3]),
                                               (''next'', PNone)])\<rparr>],
            calls = []\<rparr>\<rparr>))
      [Verb ''delete'' ''/objects/1'' [] [], GetPaged ''/objects'' [] []])))
     ''Authorization'' = Some ''Bearer abc''
   \<and> map (\<lambda>c. (c_meth c, map_of (c_headers c) ''Authorization''))
        (calls (session (run_ops \<lparr>urlparse_path = Inr, repr = (\<lambda>v. [])\<rparr>
      (snd (authorize \<lparr>urlparse_path = Inr, repr = (\<lambda>v. [])\<rparr>
        \<lparr>config = [(''baseurl'', ''http://localhost:8000/''), (''username'', ''u''),
                   (''password'', ''p'')],
         session = \<lparr>headers = [],
            replies = [Inr \<lparr>status_code = 200,
                            json = Inr (PDict [(''token'', PStr ''abc'')])\<rparr>,
                       Inr \<lparr>status_code = 204, json = Inl (OtherException ''JSONDecodeError'' [])\<rparr>,
                       Inr \<lparr>status_code = 200,
                            json = Inr (PDict [(''results'', PList [PInt 3]),
                                               (''next'', PNone)])\<rparr>],
            calls = []\<rparr>\<rparr>))
      [Verb ''delete'' ''/objects/1'' [] [], GetPaged ''/objects'' [] []]))) =
     [(''post'', None), (''delete'', Some ''Bearer abc''), (''get'', Some ''Bearer abc'')]"
proof -
  let ?L = "\<lparr>urlparse_path = Inr, repr = (\<lambda>v. [])\<rparr>"
  let ?S0 = "\<lparr>config = [(''baseurl'', ''http://localhost:8000/''), (''username'', ''u''),
                   (''password'', ''p'')],
         session = \<lparr>headers = [],
            replies = [Inr \<lparr>status_code = 200,
                            json = Inr (PDict [(''token'', PStr ''abc'')])\<rparr>,
                       Inr \<lparr>status_code = 204, json = Inl (OtherException ''JSONDecodeError'' [])\<rparr>,
                       Inr \<lparr>status_code = 200,
                            json = Inr (PDict [(''results'', PList [PInt 3]),
                                               (''next'', PNone)])\<rparr>],
            calls = []\<rparr>\<rparr>"
  let ?ops = "[Verb ''delete'' ''/objects/1'' [] [], GetPaged ''/objects'' [] []]"
  have h: "map_of (headers (session (snd (authorize ?L ?S0)))) ''Authorization'' =
             Some ''Bearer abc''"
    by (simp add: authorize_def config_get_def session_request_def Let_def py_str_def)
  have ev: "map (\<lambda>c. (c_meth c, map_of (c_headers c) ''Authorization''))
              (calls (session (run_ops ?L (snd (authorize ?L ?S0)) ?ops))) =
            [(''post'', None), (''delete'', Some ''Bearer abc''), (''get'', Some ''Bearer abc'')]"
    by (simp add: authorize_def config_get_def session_request_def Let_def py_str_def
          get_paged_def initial_params_def http_method_def get_paged_loop.simps)
  from authorization_header_persists [OF h, of ?L ?ops] ev show ?thesis by blast
qed

subsection \<open>Pagination: pages that cannot be handled\<close>

text \<open>A \<open>results\<close> field that has no length is handled like a missing one.\<close>

lemma get_paged_loop_unsized:
  assumes "getitem j ''results'' = Inr v" and "py_len v = Inl e"
  shows "get_paged_loop L u params j self = ([], Raise (return_error L j), self)"
  using assms by (subst get_paged_loop.simps) simp

text \<open>
  C6. When, after any number of pages with results and a next page, the session answers
  with a parsed page on which reading \<open>results\<close> or \<open>next\<close> raises (for instance an
  object without a \<open>results\<close> key), \<open>get_paged\<close> has yielded the items of the pages
  before and raises \<open>ElectronBondReturnError\<close>, whose message ends with that parsed
  page as Python formats it.
\<close>

theorem get_paged_bad_page:
  assumes cfg: "map_of (config self) ''baseurl'' = Some b"
    and url: "urlparse_path L u = Inr path"
    and ip: "initial_params kws = Inr (params, kws')"
    and inc: "ms \<noteq> [] \<longrightarrow> page_incrementable params"
    and rep: "replies (session self) = map Inr rs @ rest"
    and js: "map json rs = map Inr (ms @ [jl])"
    and more: "\<forall>m \<in> set ms. more_page m"
    and bad: "getitem jl ''results'' = Inl e \<or> dict_get jl ''next'' = Inl e"
  shows "fst (get_paged L self u as kws) = concat (map page_items ms) \<and>
         fst (snd (get_paged L self u as kws)) =
           Raise (ElectronBondReturnError
                   (''get_paged doesn't know how to handle '' @ py_str L jl))"
  unfolding get_paged_run [OF cfg url ip inc rep js more] get_paged_loop_bad [OF bad]
  by (simp add: return_error_def)

theorem get_paged_bad_page_witness:
  "fst (get_paged \<lparr>urlparse_path = Inr, repr = (\<lambda>v. ''{'detail': 'Not found.'}'')\<rparr>
     \<lparr>config = [(''baseurl'', ''http://localhost:8000/'')],
      session = \<lparr>headers = [],
                 replies = [Inr \<lparr>status_code = 404,
                                 json = Inr (PDict [(''detail'', PStr ''Not found.'')])\<rparr>],
                 calls = []\<rparr>\<rparr> ''/objects'' [] []) = []
   \<and> fst (snd (get_paged \<lparr>urlparse_path = Inr, repr = (\<lambda>v. ''{'detail': 'Not found.'}'')\<rparr>
     \<lparr>config = [(''baseurl'', ''http://localhost:8000/'')],
      session = \<lparr>headers = [],
                 replies = [Inr \<lparr>status_code = 404,
                                 json = Inr (PDict [(''detail'', PStr ''Not found.'')])\<rparr>],
                 calls = []\<rparr>\<rparr> ''/objects'' [] [])) =
       Raise (ElectronBondReturnError
               ''get_paged doesn't know how to handle {'detail': 'Not found.'}'')"
proof -
  let ?L = "\<lparr>urlparse_path = Inr, repr = (\<lambda>v. ''{'detail': 'Not found.'}'')\<rparr>"
  let ?p = "PDict [(''detail'', PStr ''Not found.'')]"
  let ?r = "\<lparr>status_code = 404, json = Inr ?p\<rparr>"
  let ?A = "\<lparr>config = [(''baseurl'', ''http://localhost:8000/'')],
             session = \<lparr>headers = [], replies = [Inr ?r], calls = []\<rparr>\<rparr>"
  have url: "urlparse_path ?L ''/objects'' = Inr ''/objects''" by simp
  have ip: "initial_params [] = Inr ([(''page'', PInt 1)], [])"
    by (simp add: initial_params_def)
  have cfg: "map_of (config ?A) ''baseurl'' = Some ''http://localhost:8000/''" by simp
  have inc: "([] :: pyval list) \<noteq> [] \<longrightarrow> page_incrementable [(''page'', PInt 1)]" by simp
  have rep: "replies (session ?A) = map Inr [?r] @ []" by simp
  have js: "map json [?r] = map Inr ([] @ [?p])" by simp
  have more: "\<forall>m \<in> set []. more_page m" by simp
  have bad: "getitem ?p ''results'' = Inl (KeyError ''results'') \<or>
             dict_get ?p ''next'' = Inl (KeyError ''results'')" by simp
  show ?thesis
    using get_paged_bad_page [OF cfg url ip inc rep js more bad, of "[]"]
    by (simp add: py_str_def)
qed

subsection \<open>Pagination: what each fetch is given\<close>

lemma initial_params_cases:
  assumes "map_of kws ''params'' = None \<and> d = [] \<or> map_of kws ''params'' = Some (PDict d)"
  shows "initial_params kws =
           Inr (dict_update [(''page'', PInt 1)] d, AList.delete ''params'' kws)"
proof -
  have "map_of kws ''params'' = None \<Longrightarrow> AList.delete ''params'' kws = kws"
    by (rule delete_id) (simp add: map_of_eq_None_iff)
  with assms show ?thesis
    by (auto simp: initial_params_def dict_update_def)
qed

lemma map_of_delete_same: "map_of (AList.delete k al) k = None"
  using delete_notin_dom [of k al] by (simp add: map_of_eq_None_iff)

text \<open>
  C8. \<open>d\<close> is the caller's \<open>params\<close> mapping (empty when there is none) and \<open>n\<close> the
  page number after \<^verbatim>\<open>{"page": 1}\<close> has been updated with it. In a run over the pages
  \<open>ms @ [jl]\<close>, the first fetch is given the merged parameters and the caller's other
  keyword arguments, from which the key \<open>params\<close> has been removed; the fetch number
  \<open>i + 1\<close> after it is given the parameters alone, with page \<open>n + 1 + i\<close>. No fetch is
  given the caller's positional arguments.
\<close>

theorem get_paged_forwarded_arguments:
  assumes cfg: "map_of (config self) ''baseurl'' = Some b"
    and url: "urlparse_path L u = Inr path"
    and cp: "map_of kws ''params'' = None \<and> d = [] \<or> map_of kws ''params'' = Some (PDict d)"
    and pg: "map_of (dict_update [(''page'', PInt 1)] d) ''page'' = Some (PInt n)"
    and rep: "replies (session self) = map Inr rs @ rest"
    and js: "map json rs = map Inr (ms @ [jl])"
    and more: "\<forall>m \<in> set ms. more_page m"
    and fin: "final_page jl"
  shows "calls (session (snd (snd (get_paged L self u as kws)))) =
           calls (session self) @
           \<lparr>c_meth = ''get'', c_url = rstrip ''/'' b @ ''/'' @ lstrip ''/'' path, c_args = [],
            c_kwargs = (''params'', PDict (dict_update [(''page'', PInt 1)] d)) #
                       AList.delete ''params'' kws,
            c_headers = headers (session self)\<rparr> #
           map (\<lambda>i. \<lparr>c_meth = ''get'', c_url = rstrip ''/'' b @ ''/'' @ lstrip ''/'' path,
                      c_args = [],
                      c_kwargs = [(''params'',
                        PDict (AList.update ''page'' (PInt (n + 1 + int i))
                                 (dict_update [(''page'', PInt 1)] d)))],
                      c_headers = headers (session self)\<rparr>)
             [0..<length ms]
         \<and> map_of (AList.delete ''params'' kws) ''params'' = None"
proof -
  let ?params = "dict_update [(''page'', PInt 1)] d"
  note ip = initial_params_cases [OF cp]
  have inc: "ms \<noteq> [] \<longrightarrow> page_incrementable ?params"
    using pg by (simp add: page_incrementable_def)
  have pa: "params_after ?params (Suc i) = AList.update ''page'' (PInt (n + 1 + int i)) ?params"
    for i
    using params_after_PInt [OF pg, of "Suc i"] by (simp add: algebra_simps)
  show ?thesis
    unfolding get_paged_run [OF cfg url ip inc rep js more] get_paged_loop_final [OF fin]
    by (simp add: pa page_fetch_def map_of_delete_same del: params_after.simps)
qed


theorem get_paged_forwarded_arguments_witness:
  "calls (session (snd (snd (get_paged \<lparr>urlparse_path = Inr, repr = (\<lambda>v. [])\<rparr>
     \<lparr>config = [(''baseurl'', ''http://localhost:8000/'')],
      session = \<lparr>headers = [],
                 replies = [Inr \<lparr>status_code = 200,
                                 json = Inr (PDict [(''results'', PList [PInt 1, PInt 2]),
                                                    (''next'', PStr ''/objects?page=2'')])\<rparr>,
                            Inr \<lparr>status_code = 200,
                                 json = Inr (PDict [(''results'', PList [PInt 3]),
                                                    (''next'', PNone)])\<rparr>],
                 calls = []\<rparr>\<rparr>
     ''/objects'' [PInt 9]
     [(''timeout'', PInt 5), (''params'', PDict [(''q'', PStr ''x'')])])))) =
   [\<lparr>c_meth = ''get'', c_url = ''http://localhost:8000/objects'', c_args = [],
     c_kwargs = [(''params'', PDict [(''page'', PInt 1), (''q'', PStr ''x'')]),
                 (''timeout'', PInt 5)],
     c_headers = []\<rparr>,
    \<lparr>c_meth = ''get'', c_url = ''http://localhost:8000/objects'', c_args = [],
     c_kwargs = [(''params'', PDict [(''page'', PInt 2), (''q'', PStr ''x'')])],
     c_headers = []\<rparr>]"
proof -
  let ?L = "\<lparr>urlparse_path = Inr, repr = (\<lambda>v. [])\<rparr>"
  let ?p1 = "PDict [(''results'', PList [PInt 1, PInt 2]), (''next'', PStr ''/objects?page=2'')]"
  let ?p2 = "PDict [(''results'', PList [PInt 3]), (''next'', PNone)]"
  let ?r1 = "\<lparr>status_code = 200, json = Inr ?p1\<rparr>"
  let ?r2 = "\<lparr>status_code = 200, json = Inr ?p2\<rparr>"
  let ?A = "\<lparr>config = [(''baseurl'', ''http://localhost:8000/'')],
             session = \<lparr>headers = [], replies = [Inr ?r1, Inr ?r2], calls = []\<rparr>\<rparr>"
  let ?kws = "[(''timeout'', PInt 5), (''params'', PDict [(''q'', PStr ''x'')])]"
  have url: "urlparse_path ?L ''/objects'' = Inr ''/objects''" by simp
  have cfg: "map_of (config ?A) ''baseurl'' = Some ''http://localhost:8000/''" by simp
  have cp: "map_of ?kws ''params'' = None \<and> [(''q'', PStr ''x'')] = [] \<or>
            map_of ?kws ''params'' = Some (PDict [(''q'', PStr ''x'')])" by simp
  have pg: "map_of (dict_update [(''page'', PInt 1)] [(''q'', PStr ''x'')]) ''page'' =
              Some (PInt 1)"
    by (simp add: dict_update_def)
  have rep: "replies (session ?A) = map Inr [?r1, ?r2] @ []" by simp
  have js: "map json [?r1, ?r2] = map Inr ([?p1] @ [?p2])" by simp
  have more: "\<forall>m \<in> set [?p1]. more_page m"
    by (simp add: more_page_def results_array_def next_truthy_def)
  have fin: "final_page ?p2"
    by (simp add: final_page_def results_array_def next_truthy_def)
  show ?thesis
    using get_paged_forwarded_arguments [OF cfg url cp pg rep js more fin, of "[PInt 9]"]
    by (simp add: dict_update_def rstrip_def lstrip_def)
qed

subsection \<open>Exceptions of the transport\<close>

lemma params_after_incrementable:
  assumes "page_incrementable params"
  shows "page_incrementable (params_after params k)"
proof (cases k)
  case 0
  with assms show ?thesis by simp
next
  case (Suc i)
  from assms obtain p p' where p: "map_of params ''page'' = Some p" "add_one p = Inr p'"
    by (auto simp: page_incrementable_def split: option.splits sum.splits)
  from p(2) obtain q where q: "p' = PInt q" using add_one_Inr_PInt by blast
  show ?thesis
    unfolding Suc params_after_Suc [OF p(1) p(2) [unfolded q]]
    by (simp add: page_incrementable_def update_conv')
qed

text \<open>An exception of the transport: on the first fetch, in a proxied verb, in \<open>authorize\<close>.\<close>

lemma http_method_transport_error:
  assumes "map_of (config self) ''baseurl'' = Some b"
    and "urlparse_path L u = Inr path"
    and "replies (session self) = Inl e # rest"
  shows "fst (http_method L m self u as kws) = Raise e"
  using assms
  by (simp add: http_method_def config_get_def session_request_def Let_def)

lemma authorize_transport_error:
  assumes "map_of (config self) ''baseurl'' = Some b"
    and "map_of (config self) ''password'' = Some password"
    and "map_of (config self) ''username'' = Some username"
    and "replies (session self) = Inl e # rest"
  shows "fst (authorize L self) = Raise e"
  using assms
  by (simp add: authorize_def config_get_def session_request_def Let_def)

lemma get_paged_first_fetch_error:
  assumes cfg: "map_of (config self) ''baseurl'' = Some b"
    and url: "urlparse_path L u = Inr path"
    and ip: "initial_params kws = Inr (params, kws')"
    and rep: "replies (session self) = Inl e # rest"
  shows "fst (snd (get_paged L self u as kws)) = Raise e"
  using ip by (simp add: get_paged_def http_method_get_reply [OF cfg url rep])

text \<open>The same exception on the fetch of a later page.\<close>

lemma get_paged_later_fetch_error:
  assumes cfg: "map_of (config self) ''baseurl'' = Some b"
    and url: "urlparse_path L u = Inr path"
    and ip: "initial_params kws = Inr (params, kws')"
    and inc: "page_incrementable params"
    and rep: "replies (session self) = map Inr rs @ Inl e # rest"
    and js: "map json rs = map Inr (ms @ [jl])"
    and more: "\<forall>m \<in> set (ms @ [jl]). more_page m"
  shows "fst (get_paged L self u as kws) = concat (map page_items (ms @ [jl])) \<and>
         fst (snd (get_paged L self u as kws)) = Raise (return_error L jl)"
proof -
  let ?full = "rstrip ''/'' b @ ''/'' @ lstrip ''/'' path"
  let ?self' = "self\<lparr>session := (session self)\<lparr>replies := Inl e # rest,
                      calls := calls (session self) @
                        page_fetch ?full (headers (session self))
                          ((''params'', PDict params) # kws') #
                        map (\<lambda>i. page_fetch ?full (headers (session self))
                                  [(''params'', PDict (params_after params (Suc i)))])
                          [0..<length ms]\<rparr>\<rparr>"
  have inc': "ms \<noteq> [] \<longrightarrow> page_incrementable params" using inc by simp
  have more': "\<forall>m \<in> set ms. more_page m" and mj: "more_page jl" using more by simp_all
  from params_after_incrementable [OF inc, of "length ms"]
  obtain p p' where p: "map_of (params_after params (length ms)) ''page'' = Some p"
      "add_one p = Inr p'"
    by (auto simp: page_incrementable_def split: option.splits sum.splits)
  have cfg': "map_of (config ?self') ''baseurl'' = Some b" using cfg by simp
  have rep': "replies (session ?self') = Inl e # rest" by simp
  show ?thesis
    unfolding get_paged_run [OF cfg url ip inc' rep js more']
      get_paged_loop_fetch_raises [OF cfg' url mj p rep']
    by simp
qed

text \<open>
  C7. The claim is that every exception other than the two of the module reaches the
  caller unchanged, also from the fetch of a later page. The code does that on the first
  fetch and does not on a later one: with a first page that has results and a next page,
  and a transport that raises \<open>ConnectionError\<close> on the second fetch, \<open>get_paged\<close>
  raises \<open>ElectronBondReturnError\<close> about the first page; the same exception on the
  first fetch is raised as it is.
\<close>

theorem later_page_transport_error_is_wrapped:
  "fst (snd (get_paged
     \<lparr>urlparse_path = Inr, repr = (\<lambda>v. ''{'results': [1], 'next': 'x'}'')\<rparr>
     \<lparr>config = [(''baseurl'', ''http://localhost:8000/'')],
      session = \<lparr>headers = [],
                 replies = [Inr \<lparr>status_code = 200,
                                 json = Inr (PDict [(''results'', PList [PInt 1]),
                                                    (''next'', PStr ''x'')])\<rparr>,
                            Inl (OtherException ''ConnectionError'' ''Max retries exceeded'')],
                 calls = []\<rparr>\<rparr> ''/objects'' [] [])) =
     Raise (ElectronBondReturnError
             ''get_paged doesn't know how to handle {'results': [1], 'next': 'x'}'')
   \<and> fst (snd (get_paged
     \<lparr>urlparse_path = Inr, repr = (\<lambda>v. ''{'results': [1], 'next': 'x'}'')\<rparr>
     \<lparr>config = [(''baseurl'', ''http://localhost:8000/'')],
      session = \<lparr>headers = [],
                 replies = [Inl (OtherException ''ConnectionError'' ''Max retries exceeded'')],
                 calls = []\<rparr>\<rparr> ''/objects'' [] [])) =
     Raise (OtherException ''ConnectionError'' ''Max retries exceeded'')"
  by (simp add: get_paged_def initial_params_def http_method_def config_get_def
       session_request_def get_paged_loop.simps return_error_def py_str_def Let_def)

end
